theory Spec2Isabelle
  imports Complex_Main "HOL-Library.Multiset"
begin

section \<open>Data model\<close>

text \<open>
  The two collections of the document store, as the schemas declare them. An ObjectId is an
  opaque identifier compared by value; a Date is its time value, the milliseconds since the
  epoch (UTC). A string is the sequence of its UTF-16 code units, which is what the
  runtime's \<open>length\<close> counts and its \<open>trim\<close> looks at; \<open>ascii\<close> writes an ASCII literal
  as such a string. The collection is a list of documents, each carrying its \<open>_id\<close>.
  The \<open>createdAt\<close>/\<open>updatedAt\<close> timestamps, the version key and the users' credentials are
  left out.
\<close>

type_synonym oid = nat
type_synonym date = int
type_synonym jsstring = "nat list"

definition ascii :: "string \<Rightarrow> jsstring" where
  "ascii s = map of_char s"

record event =
  event_id :: oid
  title :: jsstring
  creatorName :: jsstring
  creator :: oid
  description :: jsstring
  location :: jsstring
  dateTime :: date
  attendeeCount :: int
  attendees :: "oid list"
  maxAttendees :: "int option"
  status :: jsstring
  category :: jsstring

record user =
  user_id :: oid
  joinedEvents :: "oid list"
  createdEvents :: "oid list"

record store =
  events :: "event list"
  users :: "user list"

text \<open>The authenticated actor that the auth middleware attaches to the request (\<open>req.user\<close>).\<close>

record actor =
  actor_id :: oid
  actor_name :: jsstring

text \<open>The responses of the handlers that are not a success, by status and message.\<close>

datatype error =
  ValidationFailed      \<comment> \<open>400 'Validation failed'\<close>
  | NotFound            \<comment> \<open>404 'Event not found'\<close>
  | Forbidden           \<comment> \<open>403 'You can only update your own events'\<close>
  | AlreadyMember       \<comment> \<open>400 'You have already joined this event'\<close>
  | CapacityExceeded    \<comment> \<open>400 'Event is full'\<close>
  | NotMember           \<comment> \<open>400 'You are not attending this event'\<close>
  | ServerError         \<comment> \<open>500, the handler's catch block\<close>

section \<open>Store operations\<close>

definition findById :: "event list \<Rightarrow> oid \<Rightarrow> event option" where
  "findById es i = find (\<lambda>e. event_id e = i) es"

text \<open>\<open>eventSchema.pre('save')\<close>: the attendee count is recomputed from the array.\<close>

definition pre_save :: "event \<Rightarrow> event" where
  "pre_save e = e\<lparr>attendeeCount := int (length (attendees e))\<rparr>"

text \<open>
  \<open>save()\<close> of a loaded document \<open>e\<close> after \<open>e.attendees.push(a)\<close>. The store library
  sends the change the request made to its copy, not the copy: \<open>a\<close> is pushed onto the
  stored array, and the count that the hook computed on the copy is set where it differs
  from the count the copy was loaded with. When the copy is the stored document, the
  stored document becomes the copy with \<open>a\<close> appended and its count recomputed.
\<close>

definition save_pushed :: "event list \<Rightarrow> event \<Rightarrow> oid \<Rightarrow> event list" where
  "save_pushed es e a =
     (let n = attendeeCount (pre_save (e\<lparr>attendees := attendees e @ [a]\<rparr>))
      in map (\<lambda>x. if event_id x = event_id e
                   then x\<lparr>attendees := attendees x @ [a],
                          attendeeCount := (if attendeeCount e = n then attendeeCount x else n)\<rparr>
                   else x) es)"

text \<open>
  \<open>save()\<close> of a loaded document \<open>e\<close> after \<open>e.attendees = xs\<close>: the array is set as a
  whole, and the count as above.
\<close>

definition save_assigned :: "event list \<Rightarrow> event \<Rightarrow> oid list \<Rightarrow> event list" where
  "save_assigned es e xs =
     (let n = attendeeCount (pre_save (e\<lparr>attendees := xs\<rparr>))
      in map (\<lambda>x. if event_id x = event_id e
                   then x\<lparr>attendees := xs,
                          attendeeCount := (if attendeeCount e = n then attendeeCount x else n)\<rparr>
                   else x) es)"

text \<open>\<open>User.findByIdAndUpdate(id, {$push: {joinedEvents: eid}})\<close> and its \<open>$pull\<close>
  counterpart, which removes every occurrence. An id that matches no user changes nothing.\<close>

definition push_joined :: "user list \<Rightarrow> oid \<Rightarrow> oid \<Rightarrow> user list" where
  "push_joined us a i =
     map (\<lambda>u. if user_id u = a then u\<lparr>joinedEvents := joinedEvents u @ [i]\<rparr> else u) us"

definition pull_joined :: "user list \<Rightarrow> oid \<Rightarrow> oid \<Rightarrow> user list" where
  "pull_joined us a i =
     map (\<lambda>u. if user_id u = a
               then u\<lparr>joinedEvents := filter (\<lambda>j. j \<noteq> i) (joinedEvents u)\<rparr> else u) us"

definition push_created :: "user list \<Rightarrow> oid \<Rightarrow> oid \<Rightarrow> user list" where
  "push_created us a i =
     map (\<lambda>u. if user_id u = a then u\<lparr>createdEvents := createdEvents u @ [i]\<rparr> else u) us"

section \<open>Membership: join and leave\<close>

text \<open>
  \<open>event.maxAttendees && event.attendees.length >= event.maxAttendees\<close>: a capacity of
  \<open>null\<close> or \<open>0\<close> is falsy and switches the check off.
\<close>

definition is_full :: "event \<Rightarrow> bool" where
  "is_full e = (case maxAttendees e of
                  None \<Rightarrow> False
                | Some m \<Rightarrow> m \<noteq> 0 \<and> m \<le> int (length (attendees e)))"

text \<open>
  The join handler from the point where \<open>Event.findById\<close> has answered: \<open>fetched\<close> is the
  document the request holds, \<open>db\<close> the collections at the time of the writes.
  \<open>save()\<close> validates the document before it writes. Which paths it validates on a loaded
  document is the store library's rule, so the validation is the parameter \<open>acc\<close> (request
  time, document); with the schema's validators it is \<open>schema_valid\<close> below. A refused
  save throws, which is the catch block's 500, and nothing is written.
  The response carries the event as it is read back.
\<close>

definition join_commit ::
  "(date \<Rightarrow> event \<Rightarrow> bool) \<Rightarrow> date \<Rightarrow> store \<Rightarrow> actor \<Rightarrow> event option
     \<Rightarrow> (error + event option) \<times> store" where
  "join_commit acc now db a fetched =
     (case fetched of
        None \<Rightarrow> (Inl NotFound, db)
      | Some e \<Rightarrow>
          if actor_id a \<in> set (attendees e) then (Inl AlreadyMember, db)
          else if is_full e then (Inl CapacityExceeded, db)
          else if \<not> acc now (e\<lparr>attendees := attendees e @ [actor_id a]\<rparr>)
               then (Inl ServerError, db)
               else let es' = save_pushed (events db) e (actor_id a);
                        us' = push_joined (users db) (actor_id a) (event_id e)
                    in (Inr (findById es' (event_id e)), \<lparr>events = es', users = us'\<rparr>))"

definition joinEvent ::
  "(date \<Rightarrow> event \<Rightarrow> bool) \<Rightarrow> date \<Rightarrow> store \<Rightarrow> actor \<Rightarrow> oid
     \<Rightarrow> (error + event option) \<times> store" where
  "joinEvent acc now db a i = join_commit acc now db a (findById (events db) i)"

text \<open>The leave handler, for a request that no other request interleaves with: the
  document it holds is the stored one.\<close>

definition leaveEvent ::
  "(date \<Rightarrow> event \<Rightarrow> bool) \<Rightarrow> date \<Rightarrow> store \<Rightarrow> actor \<Rightarrow> oid
     \<Rightarrow> (error + event option) \<times> store" where
  "leaveEvent acc now db a i =
     (case findById (events db) i of
        None \<Rightarrow> (Inl NotFound, db)
      | Some e \<Rightarrow>
          if actor_id a \<notin> set (attendees e) then (Inl NotMember, db)
          else let xs = filter (\<lambda>x. x \<noteq> actor_id a) (attendees e) in
               if \<not> acc now (e\<lparr>attendees := xs\<rparr>) then (Inl ServerError, db)
               else let es' = save_assigned (events db) e xs;
                        us' = pull_joined (users db) (actor_id a) (event_id e)
                    in (Inr (findById es' (event_id e)), \<lparr>events = es', users = us'\<rparr>))"

text \<open>A handler's outcome is a success when it is not one of the error responses.\<close>

definition succeeded :: "(error + 'a) \<times> store \<Rightarrow> bool" where
  "succeeded out = (case fst out of Inl err \<Rightarrow> False | Inr r \<Rightarrow> True)"

text \<open>The two-sided membership relation between the collections.\<close>

definition consistent :: "store \<Rightarrow> bool" where
  "consistent db =
     (\<forall>e \<in> set (events db). \<forall>u \<in> set (users db).
        (user_id u \<in> set (attendees e)) = (event_id e \<in> set (joinedEvents u)))"

section \<open>Request bodies and validation\<close>

text \<open>
  A date in a request is a string, known here by two things: whether \<open>isISO8601\<close>
  accepts it, and what \<open>new Date\<close> makes of it, an instant or an Invalid Date. (The week
  date \<open>2030-W01-1\<close> is ISO 8601 and does not parse; \<open>March 7, 2030\<close> parses and is not
  ISO 8601.)
\<close>

datatype date_text = DateText (iso8601: bool) (parsed: "date option")

text \<open>
  \<open>req.body\<close> of the create and update routes: every path of the event schema is absent
  or present with a value of the path's type (keys outside the schema are dropped by the
  store library).
\<close>

record body =
  b_title :: "jsstring option"
  b_description :: "jsstring option"
  b_location :: "jsstring option"
  b_dateTime :: "date_text option"
  b_category :: "jsstring option"
  b_creator :: "oid option"
  b_creatorName :: "jsstring option"
  b_attendees :: "oid list option"
  b_attendeeCount :: "int option"
  b_maxAttendees :: "int option"
  b_status :: "jsstring option"

text \<open>
  The white space of the language (\<open>\s\<close> of its regular expressions, and what
  \<open>String.prototype.trim\<close> strips): tab, line feed, vertical tab, form feed, carriage
  return, space, no-break space, U+1680, U+2000 to U+200A, the line and paragraph
  separators, U+202F, U+205F, U+3000 and U+FEFF.
\<close>

definition is_space :: "nat \<Rightarrow> bool" where
  "is_space c =
     (c \<in> set [0x09, 0x0A, 0x0B, 0x0C, 0x0D, 0x20, 0xA0, 0x1680, 0x2028, 0x2029, 0x202F,
               0x205F, 0x3000, 0xFEFF]
      \<or> (0x2000 \<le> c \<and> c \<le> 0x200A))"

definition trim :: "jsstring \<Rightarrow> jsstring" where
  "trim s = rev (dropWhile is_space (rev (dropWhile is_space s)))"

definition categories :: "jsstring list" where
  "categories = map ascii [''conference'', ''workshop'', ''meetup'', ''webinar'', ''social'',
                           ''other'']"

definition statuses :: "jsstring list" where
  "statuses = map ascii [''upcoming'', ''ongoing'', ''completed'', ''cancelled'']"

text \<open>
  \<open>isLength\<close> of the validation library does not count code units: it takes the
  variation selectors U+FE0E and U+FE0F off the length, and one for every surrogate pair
  (the matches of a high surrogate followed by a low one, from the left).
\<close>

fun surrogate_pairs :: "jsstring \<Rightarrow> nat" where
  "surrogate_pairs (a # b # cs) =
     (if 0xD800 \<le> a \<and> a \<le> 0xDBFF \<and> 0xDC00 \<le> b \<and> b \<le> 0xDFFF
      then Suc (surrogate_pairs cs) else surrogate_pairs (b # cs))"
| "surrogate_pairs cs = 0"

definition validator_length :: "jsstring \<Rightarrow> int" where
  "validator_length s =
     int (length s) - int (length (filter (\<lambda>c. c = 0xFE0F \<or> c = 0xFE0E) s))
       - int (surrogate_pairs s)"

text \<open>\<open>.trim().isLength({min, max})\<close> of the validation chains.\<close>

definition isLength :: "int \<Rightarrow> int \<Rightarrow> jsstring \<Rightarrow> bool" where
  "isLength lo hi s = (lo \<le> validator_length (trim s) \<and> validator_length (trim s) \<le> hi)"

text \<open>\<open>.isISO8601().custom(...)\<close>: the custom validator throws when
  \<open>new Date(value) <= new Date()\<close>, which is false of an Invalid Date.\<close>

definition future_date :: "date \<Rightarrow> date_text \<Rightarrow> bool" where
  "future_date now v =
     (iso8601 v \<and> (case parsed v of None \<Rightarrow> True | Some d \<Rightarrow> \<not> d \<le> now))"

text \<open>The chain of the create route: the four fields are required, \<open>category\<close> is optional.\<close>

definition post_valid :: "date \<Rightarrow> body \<Rightarrow> bool" where
  "post_valid now b =
     ((case b_title b of None \<Rightarrow> False | Some t \<Rightarrow> isLength 3 100 t) \<and>
      (case b_description b of None \<Rightarrow> False | Some d \<Rightarrow> isLength 10 1000 d) \<and>
      (case b_location b of None \<Rightarrow> False | Some l \<Rightarrow> isLength 3 200 l) \<and>
      (case b_dateTime b of None \<Rightarrow> False | Some v \<Rightarrow> future_date now v) \<and>
      (case b_category b of None \<Rightarrow> True | Some c \<Rightarrow> c \<in> set categories))"

text \<open>The chain of the update route: four optional fields, no rule for any other key.\<close>

definition put_valid :: "date \<Rightarrow> body \<Rightarrow> bool" where
  "put_valid now b =
     ((case b_title b of None \<Rightarrow> True | Some t \<Rightarrow> isLength 3 100 t) \<and>
      (case b_description b of None \<Rightarrow> True | Some d \<Rightarrow> isLength 10 1000 d) \<and>
      (case b_location b of None \<Rightarrow> True | Some l \<Rightarrow> isLength 3 200 l) \<and>
      (case b_dateTime b of None \<Rightarrow> True | Some v \<Rightarrow> future_date now v))"

text \<open>The validators of the event schema, path by path; they count code units.\<close>

definition title_ok :: "jsstring \<Rightarrow> bool" where
  "title_ok t = (t \<noteq> [] \<and> 3 \<le> length t \<and> length t \<le> 100)"

definition description_ok :: "jsstring \<Rightarrow> bool" where
  "description_ok d = (d \<noteq> [] \<and> 10 \<le> length d \<and> length d \<le> 1000)"

definition location_ok :: "jsstring \<Rightarrow> bool" where
  "location_ok l = (l \<noteq> [] \<and> 3 \<le> length l \<and> length l \<le> 200)"

definition schema_valid :: "date \<Rightarrow> event \<Rightarrow> bool" where
  "schema_valid now e =
     (title_ok (title e) \<and> creatorName e \<noteq> [] \<and> description_ok (description e) \<and>
      location_ok (location e) \<and> now < dateTime e \<and> 0 \<le> attendeeCount e \<and>
      (case maxAttendees e of None \<Rightarrow> True | Some m \<Rightarrow> 1 \<le> m) \<and>
      status e \<in> set statuses \<and> category e \<in> set categories)"

section \<open>Creating an event\<close>

text \<open>
  \<open>new Event({title, description, location, dateTime, creator, creatorName, category})\<close>:
  the strings are trimmed by the schema, the other paths take the schema's defaults.
\<close>

definition new_Event ::
  "oid \<Rightarrow> actor \<Rightarrow> jsstring \<Rightarrow> jsstring \<Rightarrow> jsstring \<Rightarrow> date \<Rightarrow> jsstring option \<Rightarrow> event" where
  "new_Event n a t d l dt c =
     \<lparr>event_id = n, title = trim t, creatorName = trim (actor_name a), creator = actor_id a,
      description = trim d, location = trim l, dateTime = dt, attendeeCount = 0,
      attendees = [], maxAttendees = None, status = ascii ''upcoming'',
      category = (case c of None \<Rightarrow> ascii ''other''
                  | Some s \<Rightarrow> if s = [] then ascii ''other'' else s)\<rparr>"

text \<open>
  The create handler. \<open>n\<close> is the fresh ObjectId of the new document. The body's strings
  reach the handler as the chain's \<open>trim\<close> left them. A date string that does not parse
  cannot be cast; \<open>save()\<close> of a new document validates every path and inserts it; a
  failed cast, a validation failure or a duplicate key is the catch block's 500.
\<close>

definition createEvent ::
  "date \<Rightarrow> store \<Rightarrow> actor \<Rightarrow> oid \<Rightarrow> body \<Rightarrow> (error + event option) \<times> store" where
  "createEvent now db a n b =
     (if \<not> post_valid now b then (Inl ValidationFailed, db)
      else case (b_title b, b_description b, b_location b, b_dateTime b) of
        (Some t, Some d, Some l, Some v) \<Rightarrow>
          (case parsed v of
             None \<Rightarrow> (Inl ServerError, db)
           | Some dt \<Rightarrow>
               let ev = new_Event n a t d l dt (b_category b) in
               if \<not> schema_valid now ev \<or> findById (events db) n \<noteq> None
               then (Inl ServerError, db)
               else let es' = events db @ [pre_save ev];
                        us' = push_created (users db) (actor_id a) n
                    in (Inr (findById es' n), \<lparr>events = es', users = us'\<rparr>))
      | _ \<Rightarrow> (Inl ValidationFailed, db))"

section \<open>Updating an event\<close>

text \<open>
  \<open>findByIdAndUpdate(id, updates, {runValidators: true})\<close> with \<open>updates = req.body\<close>:
  every path present in the body is cast (strings trimmed, a date string parsed), checked
  by the validators of its path, and set on the stored document. No save hook runs on this
  route.
\<close>

definition update_validators :: "date \<Rightarrow> body \<Rightarrow> bool" where
  "update_validators now b =
     ((case b_title b of None \<Rightarrow> True | Some t \<Rightarrow> title_ok (trim t)) \<and>
      (case b_creatorName b of None \<Rightarrow> True | Some n \<Rightarrow> trim n \<noteq> []) \<and>
      (case b_description b of None \<Rightarrow> True | Some d \<Rightarrow> description_ok (trim d)) \<and>
      (case b_location b of None \<Rightarrow> True | Some l \<Rightarrow> location_ok (trim l)) \<and>
      (case b_dateTime b of
         None \<Rightarrow> True
       | Some v \<Rightarrow> (case parsed v of None \<Rightarrow> False | Some d \<Rightarrow> now < d)) \<and>
      (case b_attendeeCount b of None \<Rightarrow> True | Some c \<Rightarrow> 0 \<le> c) \<and>
      (case b_maxAttendees b of None \<Rightarrow> True | Some m \<Rightarrow> 1 \<le> m) \<and>
      (case b_status b of None \<Rightarrow> True | Some s \<Rightarrow> s \<in> set statuses) \<and>
      (case b_category b of None \<Rightarrow> True | Some c \<Rightarrow> c \<in> set categories))"

definition apply_updates :: "event \<Rightarrow> body \<Rightarrow> event" where
  "apply_updates e b =
     e\<lparr>title := (case b_title b of None \<Rightarrow> title e | Some t \<Rightarrow> trim t),
       creatorName := (case b_creatorName b of None \<Rightarrow> creatorName e | Some n \<Rightarrow> trim n),
       creator := (case b_creator b of None \<Rightarrow> creator e | Some c \<Rightarrow> c),
       description := (case b_description b of None \<Rightarrow> description e | Some d \<Rightarrow> trim d),
       location := (case b_location b of None \<Rightarrow> location e | Some l \<Rightarrow> trim l),
       dateTime := (case b_dateTime b of
                      None \<Rightarrow> dateTime e
                    | Some v \<Rightarrow> (case parsed v of None \<Rightarrow> dateTime e | Some d \<Rightarrow> d)),
       attendeeCount := (case b_attendeeCount b of None \<Rightarrow> attendeeCount e | Some c \<Rightarrow> c),
       attendees := (case b_attendees b of None \<Rightarrow> attendees e | Some xs \<Rightarrow> xs),
       maxAttendees := (case b_maxAttendees b of None \<Rightarrow> maxAttendees e | Some m \<Rightarrow> Some m),
       status := (case b_status b of None \<Rightarrow> status e | Some s \<Rightarrow> s),
       category := (case b_category b of None \<Rightarrow> category e | Some c \<Rightarrow> c)\<rparr>"

text \<open>
  The update handler, in the order of its checks: the request validation result, the
  lookup, the creator check, then the write.
\<close>

definition updateEvent ::
  "date \<Rightarrow> store \<Rightarrow> actor \<Rightarrow> oid \<Rightarrow> body \<Rightarrow> (error + event option) \<times> store" where
  "updateEvent now db a i b =
     (if \<not> put_valid now b then (Inl ValidationFailed, db)
      else case findById (events db) i of
        None \<Rightarrow> (Inl NotFound, db)
      | Some e \<Rightarrow>
          if creator e \<noteq> actor_id a then (Inl Forbidden, db)
          else if \<not> update_validators now b then (Inl ServerError, db)
          else let es' = map (\<lambda>x. if event_id x = i then apply_updates x b else x) (events db)
               in (Inr (findById es' i), db\<lparr>events := es'\<rparr>))"

section \<open>Dates of the runtime\<close>

text \<open>
  The handler computes its date windows with the Date object's local-time methods
  (\<open>getFullYear\<close>, \<open>getMonth\<close>, \<open>getDate\<close>, \<open>getDay\<close>, \<open>setDate\<close> and the
  constructor \<open>new Date(y, m, d)\<close>). They are the language's date algorithms over time
  values, written here with the names the language definition gives them.
\<close>

definition msPerDay :: int where
  "msPerDay = 86400000"

definition Day :: "int \<Rightarrow> int" where
  "Day t = t div msPerDay"

definition TimeWithinDay :: "int \<Rightarrow> int" where
  "TimeWithinDay t = t mod msPerDay"

definition DayFromYear :: "int \<Rightarrow> int" where
  "DayFromYear y = 365 * (y - 1970) + (y - 1969) div 4 - (y - 1901) div 100 + (y - 1601) div 400"

definition leap_year :: "int \<Rightarrow> bool" where
  "leap_year y = (y mod 4 = 0 \<and> (y mod 100 \<noteq> 0 \<or> y mod 400 = 0))"

text \<open>The year whose first day is the last one not after day \<open>d\<close>: an estimate from the
  mean year length, corrected by one where it is off.\<close>

definition YearFromDay :: "int \<Rightarrow> int" where
  "YearFromDay d =
     (let y = 1970 + (d * 400) div 146097
      in if d < DayFromYear y then y - 1
         else if DayFromYear (y + 1) \<le> d then y + 1
         else y)"

definition YearFromTime :: "int \<Rightarrow> int" where
  "YearFromTime t = YearFromDay (Day t)"

definition DayWithinYear :: "int \<Rightarrow> int" where
  "DayWithinYear t = Day t - DayFromYear (YearFromTime t)"

text \<open>The number of days of a year that precede its month \<open>m\<close> (0 is January).\<close>

definition month_start :: "bool \<Rightarrow> int \<Rightarrow> int" where
  "month_start lp m =
     (let l = (if lp then 1 else 0)
      in if m = 0 then 0 else if m = 1 then 31 else if m = 2 then 59 + l
         else if m = 3 then 90 + l else if m = 4 then 120 + l else if m = 5 then 151 + l
         else if m = 6 then 181 + l else if m = 7 then 212 + l else if m = 8 then 243 + l
         else if m = 9 then 273 + l else if m = 10 then 304 + l else 334 + l)"

definition MonthFromTime :: "int \<Rightarrow> int" where
  "MonthFromTime t =
     (let d = DayWithinYear t; l = (if leap_year (YearFromTime t) then 1 else 0)
      in if d < 31 then 0 else if d < 59 + l then 1 else if d < 90 + l then 2
         else if d < 120 + l then 3 else if d < 151 + l then 4 else if d < 181 + l then 5
         else if d < 212 + l then 6 else if d < 243 + l then 7 else if d < 273 + l then 8
         else if d < 304 + l then 9 else if d < 334 + l then 10 else 11)"

definition DateFromTime :: "int \<Rightarrow> int" where
  "DateFromTime t =
     DayWithinYear t - month_start (leap_year (YearFromTime t)) (MonthFromTime t) + 1"

definition WeekDay :: "int \<Rightarrow> int" where
  "WeekDay t = (Day t + 4) mod 7"

text \<open>\<open>MakeDay\<close> accepts a month and a day of the month outside their ranges and carries
  them over into the neighbouring months and years.\<close>

definition MakeDay :: "int \<Rightarrow> int \<Rightarrow> int \<Rightarrow> int" where
  "MakeDay year month dt =
     (let ym = year + month div 12; mn = month mod 12
      in DayFromYear ym + month_start (leap_year ym) mn + dt - 1)"

definition MakeDate :: "int \<Rightarrow> int \<Rightarrow> int" where
  "MakeDate day time = day * msPerDay + time"

text \<open>
  The server's time zone is a parameter \<open>tz\<close>. It gives the two offsets of local time
  from UTC, in milliseconds, that the language definition calls \<open>LocalTZA(t, true)\<close> and
  \<open>LocalTZA(t, false)\<close>: the offset in effect at an instant, and the offset the runtime
  takes for a local time value (at a local time that a clock change skips or repeats, the
  offset before the change). A zone without clock changes has one offset for both.
\<close>

record zone =
  utc_offset :: "date \<Rightarrow> int"
  local_offset :: "int \<Rightarrow> int"

definition LocalTime :: "zone \<Rightarrow> date \<Rightarrow> int" where
  "LocalTime tz t = t + utc_offset tz t"

definition UTC :: "zone \<Rightarrow> int \<Rightarrow> date" where
  "UTC tz t = t - local_offset tz t"

definition getFullYear :: "zone \<Rightarrow> date \<Rightarrow> int" where
  "getFullYear tz t = YearFromTime (LocalTime tz t)"

definition getMonth :: "zone \<Rightarrow> date \<Rightarrow> int" where
  "getMonth tz t = MonthFromTime (LocalTime tz t)"

definition getDate :: "zone \<Rightarrow> date \<Rightarrow> int" where
  "getDate tz t = DateFromTime (LocalTime tz t)"

definition getDay :: "zone \<Rightarrow> date \<Rightarrow> int" where
  "getDay tz t = WeekDay (LocalTime tz t)"

text \<open>\<open>new Date(y, m, d)\<close>: the instant of the local time 00:00 of the day; a year from 0
  to 99 means 1900 + y.\<close>

definition new_Date :: "zone \<Rightarrow> int \<Rightarrow> int \<Rightarrow> int \<Rightarrow> date" where
  "new_Date tz y m d =
     (let yr = (if 0 \<le> y \<and> y \<le> 99 then 1900 + y else y)
      in UTC tz (MakeDate (MakeDay yr m d) 0))"

definition setDate :: "zone \<Rightarrow> date \<Rightarrow> int \<Rightarrow> date" where
  "setDate tz t d =
     (let lt = LocalTime tz t
      in UTC tz (MakeDate (MakeDay (YearFromTime lt) (MonthFromTime lt) d) (TimeWithinDay lt)))"

section \<open>Listing events\<close>

text \<open>
  \<open>req.query\<close>. A text parameter is absent or a string (the empty string is falsy, like an
  absent one). \<open>startDate\<close> and \<open>endDate\<close> are absent (or empty) or a date string, of
  which the handler takes what \<open>new Date\<close> makes of it.
  \<open>page\<close> and \<open>limit\<close> are absent or a raw string, which the arithmetic of the handler
  coerces to a number: \<open>NumStr n\<close> is a string whose numeric value is the integer \<open>n\<close>,
  \<open>BadStr\<close> a string that has none (the coercion gives NaN).
\<close>

datatype qraw = NumStr int | BadStr

record list_query =
  q_search :: "jsstring option"
  q_dateFilter :: "jsstring option"
  q_startDate :: "date_text option"
  q_endDate :: "date_text option"
  q_page :: "qraw option"
  q_limit :: "qraw option"

text \<open>A value of the handler: a number literal (the defaults) or a raw string.\<close>

datatype jsval = JNum int | JRaw qraw

datatype jsnum = Num int | NaN

definition to_num :: "jsval \<Rightarrow> jsnum" where
  "to_num v = (case v of JNum n \<Rightarrow> Num n | JRaw (NumStr n) \<Rightarrow> Num n | JRaw BadStr \<Rightarrow> NaN)"

definition js_sub :: "jsnum \<Rightarrow> jsnum \<Rightarrow> jsnum" where
  "js_sub x y = (case (x, y) of (Num a, Num b) \<Rightarrow> Num (a - b) | _ \<Rightarrow> NaN)"

definition js_mul :: "jsnum \<Rightarrow> jsnum \<Rightarrow> jsnum" where
  "js_mul x y = (case (x, y) of (Num a, Num b) \<Rightarrow> Num (a * b) | _ \<Rightarrow> NaN)"

text \<open>\<open>Math.ceil(total / limit)\<close> for a count \<open>n\<close>: a division by zero gives
  Infinity, or NaN when the count is zero as well.\<close>

datatype jsceil = Ceil int | CeilNaN | CeilInfinity

definition ceil_div :: "nat \<Rightarrow> jsnum \<Rightarrow> jsceil" where
  "ceil_div n l =
     (case l of
        NaN \<Rightarrow> CeilNaN
      | Num k \<Rightarrow> if k = 0 then (if n = 0 then CeilNaN else CeilInfinity)
                 else Ceil (- ((- int n) div k)))"

text \<open>The date window of a named bucket, as \<open>($gte, $lt)\<close>; any other name sets none.\<close>

definition today_of :: "zone \<Rightarrow> date \<Rightarrow> date" where
  "today_of tz now = new_Date tz (getFullYear tz now) (getMonth tz now) (getDate tz now)"

definition bucket :: "zone \<Rightarrow> date \<Rightarrow> jsstring \<Rightarrow> (date \<times> date) option" where
  "bucket tz now f =
     (let today = today_of tz now in
      if f = ascii ''today'' then
        Some (today, setDate tz today (getDate tz today + 1))
      else if f = ascii ''current_week'' then
        (let startOfWeek = setDate tz today (getDate tz today - getDay tz today);
             endOfWeek = setDate tz startOfWeek (getDate tz startOfWeek + 7)
         in Some (startOfWeek, endOfWeek))
      else if f = ascii ''last_week'' then
        (let lastWeekStart = setDate tz today (getDate tz today - getDay tz today - 7);
             lastWeekEnd = setDate tz lastWeekStart (getDate tz lastWeekStart + 7)
         in Some (lastWeekStart, lastWeekEnd))
      else if f = ascii ''current_month'' then
        Some (new_Date tz (getFullYear tz today) (getMonth tz today) 1,
              new_Date tz (getFullYear tz today) (getMonth tz today + 1) 1)
      else if f = ascii ''last_month'' then
        Some (new_Date tz (getFullYear tz today) (getMonth tz today - 1) 1,
              new_Date tz (getFullYear tz today) (getMonth tz today) 1)
      else None)"

text \<open>The \<open>dateTime\<close> entry of the query object: the custom range overwrites the bucket.\<close>

datatype date_cond = AnyDate | HalfOpen date date | Closed date_text date_text

definition date_part :: "zone \<Rightarrow> date \<Rightarrow> list_query \<Rightarrow> date_cond" where
  "date_part tz now q =
     (let c = (case q_dateFilter q of
                 None \<Rightarrow> AnyDate
               | Some f \<Rightarrow> if f = [] then AnyDate
                          else (case bucket tz now f of
                                  None \<Rightarrow> AnyDate
                                | Some (s, e) \<Rightarrow> HalfOpen s e))
      in case (q_startDate q, q_endDate q) of
           (Some s, Some e) \<Rightarrow> Closed s e
         | _ \<Rightarrow> c)"

text \<open>
  \<open>Event.find(query)\<close>. The store's regular expressions are the parameter \<open>rx\<close>: the
  case-insensitive test a pattern compiles to, or nothing for a pattern the store refuses.
  A query the store cannot cast or compile throws.
\<close>

definition date_test :: "date_cond \<Rightarrow> (event \<Rightarrow> bool) option" where
  "date_test c =
     (case c of
        AnyDate \<Rightarrow> Some (\<lambda>e. True)
      | HalfOpen s e \<Rightarrow> Some (\<lambda>x. s \<le> dateTime x \<and> dateTime x < e)
      | Closed v w \<Rightarrow>
          (case (parsed v, parsed w) of
             (Some s, Some e) \<Rightarrow> Some (\<lambda>x. s \<le> dateTime x \<and> dateTime x \<le> e)
           | _ \<Rightarrow> None))"

definition search_test :: "(jsstring \<Rightarrow> (jsstring \<Rightarrow> bool) option) \<Rightarrow> jsstring option
     \<Rightarrow> (event \<Rightarrow> bool) option" where
  "search_test rx s =
     (case s of
        None \<Rightarrow> Some (\<lambda>e. True)
      | Some p \<Rightarrow> if p = [] then Some (\<lambda>e. True)
                 else (case rx p of
                         None \<Rightarrow> None
                       | Some m \<Rightarrow> Some (\<lambda>e. m (title e) \<or> m (description e))))"

definition find_events :: "(jsstring \<Rightarrow> (jsstring \<Rightarrow> bool) option) \<Rightarrow> zone \<Rightarrow> date \<Rightarrow> list_query
     \<Rightarrow> event list \<Rightarrow> error + event list" where
  "find_events rx tz now q es =
     (case (search_test rx (q_search q), date_test (date_part tz now q)) of
        (Some st, Some dt) \<Rightarrow> Inr (filter (\<lambda>e. st e \<and> dt e) es)
      | _ \<Rightarrow> Inl ServerError)"

text \<open>\<open>.sort({dateTime: -1})\<close>, with equal dates kept in collection order.\<close>

definition sort_desc :: "event list \<Rightarrow> event list" where
  "sort_desc es = sort_key (\<lambda>e. - dateTime e) es"

text \<open>
  \<open>.limit(l).skip(s)\<close> on the sorted matches: the store skips, then limits. What the
  store answers to a limit that is not a positive integer or a skip that is not a
  non-negative integer is the parameter \<open>other\<close>.
\<close>

definition find_page ::
  "(event list \<Rightarrow> jsnum \<Rightarrow> jsnum \<Rightarrow> error + event list) \<Rightarrow> event list \<Rightarrow> jsnum \<Rightarrow> jsnum
     \<Rightarrow> error + event list" where
  "find_page other es l s =
     (case (l, s) of
        (Num k, Num j) \<Rightarrow> if 0 < k \<and> 0 \<le> j then Inr (take (nat k) (drop (nat j) es))
                          else other es l s
      | _ \<Rightarrow> other es l s)"

record pagination =
  current :: jsval
  pages :: jsceil
  total_count :: nat

record listing =
  listed :: "event list"
  paging :: pagination

definition listEvents ::
  "(jsstring \<Rightarrow> (jsstring \<Rightarrow> bool) option)
     \<Rightarrow> (event list \<Rightarrow> jsnum \<Rightarrow> jsnum \<Rightarrow> error + event list)
     \<Rightarrow> zone \<Rightarrow> store \<Rightarrow> date \<Rightarrow> list_query \<Rightarrow> error + listing" where
  "listEvents rx other tz db now q =
     (let page = (case q_page q of None \<Rightarrow> JNum 1 | Some r \<Rightarrow> JRaw r);
          limit = (case q_limit q of None \<Rightarrow> JNum 10 | Some r \<Rightarrow> JRaw r)
      in case find_events rx tz now q (events db) of
           Inl err \<Rightarrow> Inl ServerError
         | Inr matches \<Rightarrow>
             (case find_page other (sort_desc matches)
                     (js_mul (to_num limit) (Num 1))
                     (js_mul (js_sub (to_num page) (Num 1)) (to_num limit)) of
                Inl err \<Rightarrow> Inl ServerError
              | Inr evs \<Rightarrow>
                  Inr \<lparr>listed = evs,
                       paging = \<lparr>current = page,
                                 pages = ceil_div (length matches) (to_num limit),
                                 total_count = length matches\<rparr>\<rparr>))"

text \<open>
  The clock of a zone shows the midnight that starts local day \<open>d\<close> when converting that
  local time to an instant and back gives it again; it does not where a clock change skips
  the midnight.
\<close>

definition midnight_shown :: "zone \<Rightarrow> int \<Rightarrow> bool" where
  "midnight_shown tz d = (LocalTime tz (UTC tz (d * msPerDay)) = d * msPerDay)"

section \<open>Example data\<close>

text \<open>A small store, four actors and a few requests, used to run the handlers.\<close>

definition no_fields :: body where
  "no_fields = \<lparr>b_title = None, b_description = None, b_location = None, b_dateTime = None,
                b_category = None, b_creator = None, b_creatorName = None, b_attendees = None,
                b_attendeeCount = None, b_maxAttendees = None, b_status = None\<rparr>"

definition ev0 :: event where
  "ev0 = \<lparr>event_id = 1, title = ascii ''Proof night'', creatorName = ascii ''Ada'', creator = 10,
          description = ascii ''An evening of proofs'', location = ascii ''Room 1'', dateTime = 2000,
          attendeeCount = 1, attendees = [11], maxAttendees = Some 2,
          status = ascii ''upcoming'', category = ascii ''meetup''\<rparr>"

definition db0 :: store where
  "db0 = \<lparr>events = [ev0],
          users = [\<lparr>user_id = 10, joinedEvents = [], createdEvents = [1]\<rparr>,
                   \<lparr>user_id = 11, joinedEvents = [1], createdEvents = []\<rparr>,
                   \<lparr>user_id = 12, joinedEvents = [], createdEvents = []\<rparr>,
                   \<lparr>user_id = 13, joinedEvents = [], createdEvents = []\<rparr>]\<rparr>"

definition ada :: actor where
  "ada = \<lparr>actor_id = 10, actor_name = ascii ''Ada''\<rparr>"

definition bob :: actor where
  "bob = \<lparr>actor_id = 11, actor_name = ascii ''Bob''\<rparr>"

definition cy :: actor where
  "cy = \<lparr>actor_id = 12, actor_name = ascii ''Cy''\<rparr>"

definition dee :: actor where
  "dee = \<lparr>actor_id = 13, actor_name = ascii ''Dee''\<rparr>"

text \<open>Twenty-five events on consecutive instants.\<close>

definition db25 :: store where
  "db25 = \<lparr>events = map (\<lambda>k. ev0\<lparr>event_id := k, dateTime := 2000 + int k\<rparr>) [1..<26],
           users = []\<rparr>"

definition no_query :: list_query where
  "no_query = \<lparr>q_search = None, q_dateFilter = None, q_startDate = None, q_endDate = None,
               q_page = None, q_limit = None\<rparr>"

text \<open>Two stores that differ on a skip or limit that is not a number: one reads NaN as 0
  (nothing skipped, no limit), the other refuses the query.\<close>

definition lenient_store :: "event list \<Rightarrow> jsnum \<Rightarrow> jsnum \<Rightarrow> error + event list" where
  "lenient_store es l s =
     (let rest = drop (case s of Num j \<Rightarrow> nat j | NaN \<Rightarrow> 0) es
      in Inr (case l of Num k \<Rightarrow> if k = 0 then rest else take (nat \<bar>k\<bar>) rest | NaN \<Rightarrow> rest))"

definition strict_store :: "event list \<Rightarrow> jsnum \<Rightarrow> jsnum \<Rightarrow> error + event list" where
  "strict_store es l s = Inl ServerError"

text \<open>A store without regular expressions; the example queries carry no search text.\<close>

definition no_rx :: "jsstring \<Rightarrow> (jsstring \<Rightarrow> bool) option" where
  "no_rx p = None"

text \<open>Noon of 2024-03-14 (UTC).\<close>

definition noon_2024_03_14 :: date where
  "noon_2024_03_14 = 1710417600000"

text \<open>
  Zones: one without clock changes, at a given offset; UTC; six hours east of UTC; and New
  York with its two clock changes of 2024, at 2024-03-10T07:00Z (local 02:00 becomes 03:00)
  and at 2024-11-03T06:00Z (local 02:00 becomes 01:00).
\<close>

definition fixed_zone :: "int \<Rightarrow> zone" where
  "fixed_zone off = \<lparr>utc_offset = (\<lambda>t. off), local_offset = (\<lambda>t. off)\<rparr>"

definition utc :: zone where
  "utc = fixed_zone 0"

definition utc_plus_6 :: zone where
  "utc_plus_6 = fixed_zone 21600000"

definition new_york :: zone where
  "new_york =
     \<lparr>utc_offset = (\<lambda>t. if 1710054000000 \<le> t \<and> t < 1730613600000
                          then - 14400000 else - 18000000),
      local_offset = (\<lambda>t. if 1710039600000 \<le> t \<and> t < 1730599200000
                            then - 14400000 else - 18000000)\<rparr>"

text \<open>A date string that is ISO 8601 and denotes the instant \<open>d\<close>.\<close>

definition Instant :: "date \<Rightarrow> date_text" where
  "Instant d = DateText True (Some d)"

section \<open>Properties of the store operations\<close>

lemma findById_Some: "findById es i = Some e \<Longrightarrow> e \<in> set es \<and> event_id e = i"
  unfolding findById_def by (induction es) (auto split: if_splits)

text \<open>What a save leaves under the id of the saved copy \<open>e\<close>, when the stored document
  is \<open>x\<close>; and the same when the copy is the stored document.\<close>

lemma findById_save_pushed_stale:
  "findById es i = Some x \<Longrightarrow> event_id e = i \<Longrightarrow>
   findById (save_pushed es e a) i =
     Some (x\<lparr>attendees := attendees x @ [a],
             attendeeCount := (if attendeeCount e = int (length (attendees e)) + 1
                               then attendeeCount x else int (length (attendees e)) + 1)\<rparr>)"
  unfolding findById_def save_pushed_def pre_save_def
  by (induction es) (auto simp: Let_def split: if_splits)

lemma findById_save_pushed:
  assumes "findById es i = Some e"
  shows "findById (save_pushed es e a) i =
           Some (e\<lparr>attendees := attendees e @ [a],
                   attendeeCount := int (length (attendees e)) + 1\<rparr>)"
proof -
  have "event_id e = i" using findById_Some[OF assms] by simp
  from findById_save_pushed_stale[OF assms this, of a] show ?thesis by auto
qed

lemma findById_save_assigned:
  assumes "findById es i = Some e"
  shows "findById (save_assigned es e xs) i =
           Some (e\<lparr>attendees := xs, attendeeCount := int (length xs)\<rparr>)"
proof -
  have id: "event_id e = i" using findById_Some[OF assms] by simp
  have "findById es i = Some x \<Longrightarrow>
        findById (save_assigned es e xs) i =
          Some (x\<lparr>attendees := xs,
                  attendeeCount := (if attendeeCount e = int (length xs)
                                    then attendeeCount x else int (length xs))\<rparr>)" for x
    using id unfolding findById_def save_assigned_def pre_save_def
    by (induction es) (auto simp: Let_def split: if_splits)
  from this[OF assms] show ?thesis by auto
qed


lemma findById_append_new:
  "findById es n = None \<Longrightarrow> event_id e = n \<Longrightarrow> findById (es @ [e]) n = Some e"
  unfolding findById_def by (induction es) (auto split: if_splits)

lemma join_commit_success:
  assumes "join_commit acc now db a (Some e) = (Inr r, db')"
  shows "actor_id a \<notin> set (attendees e) \<and> \<not> is_full e \<and>
         r = findById (events db') (event_id e) \<and>
         events db' = save_pushed (events db) e (actor_id a) \<and>
         users db' = push_joined (users db) (actor_id a) (event_id e)"
  using assms unfolding join_commit_def by (auto simp: Let_def split: if_splits)

lemma joinEvent_found:
  assumes "joinEvent acc now db a i = (Inr r, db')"
  obtains e where "findById (events db) i = Some e"
    and "join_commit acc now db a (Some e) = (Inr r, db')"
proof (cases "findById (events db) i")
  case None
  with assms show ?thesis by (simp add: joinEvent_def join_commit_def)
next
  case (Some e)
  with assms that show ?thesis by (simp add: joinEvent_def)
qed

lemma leaveEvent_success:
  assumes "leaveEvent acc now db a i = (Inr r, db')"
  obtains e where "findById (events db) i = Some e"
    and "actor_id a \<in> set (attendees e)"
    and "events db' = save_assigned (events db) e (filter (\<lambda>x. x \<noteq> actor_id a) (attendees e))"
    and "users db' = pull_joined (users db) (actor_id a) (event_id e)"
    and "r = findById (events db') (event_id e)"
proof (cases "findById (events db) i")
  case None
  with assms show ?thesis by (simp add: leaveEvent_def)
next
  case (Some e)
  with assms that[of e] show ?thesis
    by (auto simp: leaveEvent_def Let_def split: if_splits)
qed


section \<open>Membership is two-sided\<close>

lemma consistent_join:
  assumes "consistent db"
  shows "consistent \<lparr>events = save_pushed (events db) e a,
                     users = push_joined (users db) a (event_id e)\<rparr>"
  using assms unfolding consistent_def save_pushed_def push_joined_def
  by (auto simp: Let_def split: if_splits)

lemma consistent_leave:
  assumes "consistent db" and "e \<in> set (events db)"
  shows "consistent \<lparr>events = save_assigned (events db) e (filter (\<lambda>x. x \<noteq> a) (attendees e)),
                     users = pull_joined (users db) a (event_id e)\<rparr>"
  using assms unfolding consistent_def save_assigned_def pull_joined_def
  by (auto simp: Let_def split: if_splits)

text \<open>
  C1. If every event and user of the store agree on membership (the user's id is among the
  event's attendees exactly when the event's id is among the user's joined events), then
  they still agree after a successful join and after a successful leave.
\<close>

theorem membership_biconditional:
  assumes "consistent db"
    and "joinEvent acc now db a i = (Inr r, db') \<or> leaveEvent acc now db a i = (Inr r, db')"
  shows "\<forall>e \<in> set (events db'). \<forall>u \<in> set (users db').
           (user_id u \<in> set (attendees e)) = (event_id e \<in> set (joinedEvents u))"
proof -
  have "consistent db'"
    using assms(2)
  proof
    assume "joinEvent acc now db a i = (Inr r, db')"
    then obtain e where f: "findById (events db) i = Some e"
      and j: "join_commit acc now db a (Some e) = (Inr r, db')"
      by (rule joinEvent_found)
    from join_commit_success[OF j] consistent_join[OF assms(1), of e "actor_id a"]
    show ?thesis by (cases db') auto
  next
    assume "leaveEvent acc now db a i = (Inr r, db')"
    then obtain e where f: "findById (events db) i = Some e"
      and ev: "events db' = save_assigned (events db) e
                              (filter (\<lambda>x. x \<noteq> actor_id a) (attendees e))"
      and us: "users db' = pull_joined (users db) (actor_id a) (event_id e)"
      by (rule leaveEvent_success)
    from ev us consistent_leave[OF assms(1), of e "actor_id a"] findById_Some[OF f]
    show ?thesis by (cases db') auto
  qed
  then show ?thesis by (simp add: consistent_def)
qed

text \<open>The example store is consistent; Cy joins its event, or Bob leaves it, and the store
  stays consistent.\<close>

lemma consistent_db0: "consistent db0"
  by (simp add: consistent_def db0_def ev0_def)

lemma schema_valid_ev0_join:
  "schema_valid 1000 (ev0\<lparr>attendees := attendees ev0 @ [x]\<rparr>)"
  by (simp add: schema_valid_def ev0_def title_ok_def description_ok_def location_ok_def
      statuses_def categories_def ascii_def)

lemma findById_db0: "findById (events db0) 1 = Some ev0"
  by (simp add: findById_def db0_def ev0_def)

lemma cy_joins:
  "joinEvent schema_valid 1000 db0 cy 1 =
     (Inr (Some (ev0\<lparr>attendees := [11, 12], attendeeCount := 2\<rparr>)),
      \<lparr>events = [ev0\<lparr>attendees := [11, 12], attendeeCount := 2\<rparr>],
       users = [\<lparr>user_id = 10, joinedEvents = [], createdEvents = [1]\<rparr>,
                \<lparr>user_id = 11, joinedEvents = [1], createdEvents = []\<rparr>,
                \<lparr>user_id = 12, joinedEvents = [1], createdEvents = []\<rparr>,
                \<lparr>user_id = 13, joinedEvents = [], createdEvents = []\<rparr>]\<rparr>)"
  by (simp add: joinEvent_def join_commit_def findById_def db0_def ev0_def cy_def is_full_def
      Let_def save_pushed_def pre_save_def push_joined_def schema_valid_def title_ok_def
      description_ok_def location_ok_def statuses_def categories_def ascii_def)

lemma bob_leaves:
  "leaveEvent schema_valid 1000 db0 bob 1 =
     (Inr (Some (ev0\<lparr>attendees := [], attendeeCount := 0\<rparr>)),
      \<lparr>events = [ev0\<lparr>attendees := [], attendeeCount := 0\<rparr>],
       users = [\<lparr>user_id = 10, joinedEvents = [], createdEvents = [1]\<rparr>,
                \<lparr>user_id = 11, joinedEvents = [], createdEvents = []\<rparr>,
                \<lparr>user_id = 12, joinedEvents = [], createdEvents = []\<rparr>,
                \<lparr>user_id = 13, joinedEvents = [], createdEvents = []\<rparr>]\<rparr>)"
  by (simp add: leaveEvent_def findById_def db0_def ev0_def bob_def
      Let_def save_assigned_def pre_save_def pull_joined_def schema_valid_def title_ok_def
      description_ok_def location_ok_def statuses_def categories_def ascii_def)

theorem membership_biconditional_witness:
  "consistent db0 \<and>
   consistent \<lparr>events = [ev0\<lparr>attendees := [11, 12], attendeeCount := 2\<rparr>],
               users = [\<lparr>user_id = 10, joinedEvents = [], createdEvents = [1]\<rparr>,
                        \<lparr>user_id = 11, joinedEvents = [1], createdEvents = []\<rparr>,
                        \<lparr>user_id = 12, joinedEvents = [1], createdEvents = []\<rparr>,
                        \<lparr>user_id = 13, joinedEvents = [], createdEvents = []\<rparr>]\<rparr> \<and>
   consistent \<lparr>events = [ev0\<lparr>attendees := [], attendeeCount := 0\<rparr>],
               users = [\<lparr>user_id = 10, joinedEvents = [], createdEvents = [1]\<rparr>,
                        \<lparr>user_id = 11, joinedEvents = [], createdEvents = []\<rparr>,
                        \<lparr>user_id = 12, joinedEvents = [], createdEvents = []\<rparr>,
                        \<lparr>user_id = 13, joinedEvents = [], createdEvents = []\<rparr>]\<rparr>"
  using membership_biconditional[OF consistent_db0 disjI1[OF cy_joins]]
    membership_biconditional[OF consistent_db0 disjI2[OF bob_leaves]] consistent_db0
  by (simp add: consistent_def)

section \<open>The attendee count\<close>

lemma count_after_join:
  assumes "joinEvent acc now db a i = (Inr r, db')"
  shows "\<exists>e. r = Some e \<and> findById (events db') i = Some e \<and>
             attendeeCount e = int (length (attendees e))"
proof -
  from assms obtain e where f: "findById (events db) i = Some e"
    and j: "join_commit acc now db a (Some e) = (Inr r, db')"
    by (rule joinEvent_found)
  have id: "event_id e = i" using findById_Some[OF f] by simp
  from join_commit_success[OF j] findById_save_pushed[OF f, of "actor_id a"] id
  show ?thesis by simp
qed

lemma count_after_leave:
  assumes "leaveEvent acc now db a i = (Inr r, db')"
  shows "\<exists>e. r = Some e \<and> findById (events db') i = Some e \<and>
             attendeeCount e = int (length (attendees e))"
proof -
  from assms obtain e where f: "findById (events db) i = Some e"
    and ev: "events db' = save_assigned (events db) e
                            (filter (\<lambda>x. x \<noteq> actor_id a) (attendees e))"
    and r: "r = findById (events db') (event_id e)"
    by (rule leaveEvent_success)
  have id: "event_id e = i" using findById_Some[OF f] by simp
  from ev r findById_save_assigned[OF f, of "filter (\<lambda>x. x \<noteq> actor_id a) (attendees e)"] id
  show ?thesis by simp
qed

text \<open>
  C2. The claim is that the attendee count equals the number of attendees after every
  mutation, the creator's update included. Join and leave recompute it (the two lemmas
  above). The update route writes the body's paths as they come: the creator of the example
  event sends \<open>attendeeCount = 5\<close>, the update succeeds, and the stored event has one
  attendee and a count of five.
\<close>

theorem update_sets_attendeeCount:
  "updateEvent 1000 db0 ada 1 (no_fields\<lparr>b_attendeeCount := Some 5\<rparr>) =
     (Inr (Some (ev0\<lparr>attendeeCount := 5\<rparr>)), db0\<lparr>events := [ev0\<lparr>attendeeCount := 5\<rparr>]\<rparr>) \<and>
   attendees (ev0\<lparr>attendeeCount := 5\<rparr>) = [11] \<and>
   attendeeCount (ev0\<lparr>attendeeCount := 5\<rparr>) = 5"
  by (simp add: updateEvent_def db0_def ev0_def ada_def findById_def put_valid_def no_fields_def
      update_validators_def apply_updates_def)

section \<open>Joining\<close>




section \<open>Two joins for the last place\<close>

text \<open>
  The handler reads the event, tests it and writes it back: between the read and the write
  of one request another request can read. \<open>join_commit\<close> takes the document a request
  has read and the store at the time it writes, so a schedule of two requests is a
  composition of reads (\<open>findById\<close>) and commits.
\<close>

lemma stale_read_joins:
  assumes f: "findById (events db) i = Some e"
    and cap: "maxAttendees e = Some (int (length (attendees e)) + 1)"
    and na: "actor_id a \<notin> set (attendees e)"
    and nb: "actor_id b \<notin> set (attendees e)"
    and acc_a: "acc now (e\<lparr>attendees := attendees e @ [actor_id a]\<rparr>)"
    and acc_b: "acc now' (e\<lparr>attendees := attendees e @ [actor_id b]\<rparr>)"
  shows "\<exists>r db1 r' db2.
            join_commit acc now db a (findById (events db) i) = (Inr r, db1) \<and>
            join_commit acc now' db1 b (findById (events db) i) = (Inr r', db2)"
proof -
  have room: "\<not> is_full e" using cap by (simp add: is_full_def)
  have "\<exists>r db1. join_commit acc now db a (Some e) = (Inr r, db1)"
    using na room acc_a by (simp add: join_commit_def Let_def)
  moreover have "\<And>db1. \<exists>r' db2. join_commit acc now' db1 b (Some e) = (Inr r', db2)"
    using nb room acc_b by (simp add: join_commit_def Let_def)
  ultimately show ?thesis unfolding f by blast
qed

text \<open>
  C4, as the code has it. An event has one place left and two different non-members ask
  to join, one after the other: the second request reads the event after the first has
  written it. Provided the first request's save is accepted, the first join succeeds and
  the second fails with CapacityExceeded. (The check and the append are two steps of the
  handler: for two requests that both read before either writes, the lemma above applies
  instead.)
\<close>

theorem last_place_joins:
  assumes f: "findById (events db) i = Some e"
    and cap: "maxAttendees e = Some (int (length (attendees e)) + 1)"
    and na: "actor_id a \<notin> set (attendees e)"
    and nb: "actor_id b \<notin> set (attendees e)"
    and ab: "actor_id a \<noteq> actor_id b"
    and acc_a: "acc now (e\<lparr>attendees := attendees e @ [actor_id a]\<rparr>)"
  shows "\<exists>r db1. joinEvent acc now db a i = (Inr r, db1) \<and>
                 joinEvent acc now' db1 b i = (Inl CapacityExceeded, db1)"
proof -
  let ?e' = "e\<lparr>attendees := attendees e @ [actor_id a],
               attendeeCount := int (length (attendees e)) + 1\<rparr>"
  let ?db1 = "\<lparr>events = save_pushed (events db) e (actor_id a),
               users = push_joined (users db) (actor_id a) (event_id e)\<rparr>"
  have id: "event_id e = i" using findById_Some[OF f] by simp
  have room: "\<not> is_full e" using cap by (simp add: is_full_def)
  have saved: "findById (save_pushed (events db) e (actor_id a)) i = Some ?e'"
    by (rule findById_save_pushed[OF f])
  have first: "join_commit acc now db a (Some e) = (Inr (Some ?e'), ?db1)"
    using na room acc_a saved id by (simp add: join_commit_def Let_def)
  have full: "is_full ?e'"
    using cap by (simp add: is_full_def)
  have "actor_id b \<notin> set (attendees ?e')"
    using nb ab by simp
  with full saved have second: "joinEvent acc now' ?db1 b i = (Inl CapacityExceeded, ?db1)"
    by (simp add: joinEvent_def join_commit_def)
  from first second show ?thesis
    by (simp add: joinEvent_def f)
qed

text \<open>Cy and Dee ask for the last place of the example event, one after the other.\<close>

theorem last_place_joins_witness:
  "maxAttendees ev0 = Some (int (length (attendees ev0)) + 1) \<and>
   actor_id cy \<notin> set (attendees ev0) \<and> actor_id dee \<notin> set (attendees ev0) \<and>
   actor_id cy \<noteq> actor_id dee \<and>
   (\<exists>r db1. joinEvent schema_valid 1000 db0 cy 1 = (Inr r, db1) \<and>
             joinEvent schema_valid 1001 db1 dee 1 = (Inl CapacityExceeded, db1))"
proof -
  have 1: "maxAttendees ev0 = Some (int (length (attendees ev0)) + 1)"
    by (simp add: ev0_def)
  have 2: "actor_id cy \<notin> set (attendees ev0)" "actor_id dee \<notin> set (attendees ev0)"
    "actor_id cy \<noteq> actor_id dee"
    by (simp_all add: ev0_def cy_def dee_def)
  have 3: "schema_valid 1000 (ev0\<lparr>attendees := attendees ev0 @ [actor_id cy]\<rparr>)"
    by (rule schema_valid_ev0_join)
  from last_place_joins[where acc = schema_valid and now = 1000 and now' = 1001,
      OF findById_db0 1 2 3] 1 2
  show ?thesis by blast
qed

text \<open>
  The claim itself does not hold of the code: both read the example event while it has one
  place left, Cy commits, Dee commits, and each gets the success response. Neither gets
  CapacityExceeded, and the stored event, of capacity 2, ends with three attendees and a
  count of 2.
\<close>

theorem racing_joins_both_succeed:
  "maxAttendees ev0 = Some 2 \<and> length (attendees ev0) = 1 \<and>
   succeeded (join_commit schema_valid 1000 db0 cy (findById (events db0) 1)) \<and>
   succeeded (join_commit schema_valid 1001
                (snd (join_commit schema_valid 1000 db0 cy (findById (events db0) 1)))
                dee (findById (events db0) 1)) \<and>
   fst (join_commit schema_valid 1001
          (snd (join_commit schema_valid 1000 db0 cy (findById (events db0) 1)))
          dee (findById (events db0) 1)) \<noteq> Inl CapacityExceeded \<and>
   events (snd (join_commit schema_valid 1001
                  (snd (join_commit schema_valid 1000 db0 cy (findById (events db0) 1)))
                  dee (findById (events db0) 1))) =
     [ev0\<lparr>attendees := [11, 12, 13], attendeeCount := 2\<rparr>]"
  by (simp add: succeeded_def join_commit_def findById_def db0_def ev0_def cy_def dee_def
      is_full_def Let_def save_pushed_def pre_save_def push_joined_def schema_valid_def
      title_ok_def description_ok_def location_ok_def statuses_def categories_def ascii_def)

section \<open>Updating\<close>

text \<open>
  C5, as the code has it. The handler looks at the request validation first. For an
  existing event and an actor who is not its creator, the update never succeeds and
  leaves the store as it was: the answer is Forbidden when the body passes the request
  validation, and the validation error when it does not.
\<close>

theorem update_by_non_creator:
  assumes "findById (events db) i = Some e" and "creator e \<noteq> actor_id a"
  shows "updateEvent now db a i b =
           (if put_valid now b then (Inl Forbidden, db) else (Inl ValidationFailed, db))"
  using assms by (simp add: updateEvent_def)

text \<open>Bob, who did not create the example event, sends a valid title.\<close>

theorem update_by_non_creator_witness:
  "findById (events db0) 1 = Some ev0 \<and> creator ev0 \<noteq> actor_id bob \<and>
   updateEvent 1000 db0 bob 1 (no_fields\<lparr>b_title := Some (ascii ''Proofs at dawn'')\<rparr>) =
     (Inl Forbidden, db0)"
proof -
  have c: "creator ev0 \<noteq> actor_id bob" by (simp add: ev0_def bob_def)
  have "put_valid 1000 (no_fields\<lparr>b_title := Some (ascii ''Proofs at dawn'')\<rparr>)"
    by (simp add: put_valid_def no_fields_def isLength_def validator_length_def trim_def is_space_def ascii_def)
  with update_by_non_creator[OF findById_db0 c, of 1000 "no_fields\<lparr>b_title := Some (ascii ''Proofs at dawn'')\<rparr>"]
    findById_db0 c
  show ?thesis by simp
qed

text \<open>The claim itself does not hold of the code: Bob sends a title of two characters and
  the answer is the validation error, not Forbidden.\<close>

theorem non_creator_gets_validation_error:
  "findById (events db0) 1 = Some ev0 \<and> creator ev0 \<noteq> actor_id bob \<and>
   updateEvent 1000 db0 bob 1 (no_fields\<lparr>b_title := Some (ascii ''ab'')\<rparr>) =
     (Inl ValidationFailed, db0) \<and>
   fst (updateEvent 1000 db0 bob 1 (no_fields\<lparr>b_title := Some (ascii ''ab'')\<rparr>)) \<noteq> Inl Forbidden"
  by (simp add: updateEvent_def db0_def ev0_def bob_def findById_def put_valid_def
      no_fields_def isLength_def validator_length_def trim_def is_space_def ascii_def)

text \<open>What the claim describes does hold for a body that carries nothing but the five
  editable fields: a successful update by the creator leaves the other paths as they were,
  and the fields it carries passed the validation.\<close>

lemma update_editable_fields_only:
  assumes "updateEvent now db a i b = (Inr r, db')"
    and "b_creator b = None" and "b_creatorName b = None" and "b_attendees b = None"
    and "b_attendeeCount b = None" and "b_maxAttendees b = None" and "b_status b = None"
  shows "\<exists>e. findById (events db) i = Some e \<and> creator e = actor_id a \<and>
             r = Some (apply_updates e b) \<and> put_valid now b \<and> update_validators now b \<and>
             event_id (apply_updates e b) = event_id e \<and>
             creator (apply_updates e b) = creator e \<and>
             creatorName (apply_updates e b) = creatorName e \<and>
             attendees (apply_updates e b) = attendees e \<and>
             attendeeCount (apply_updates e b) = attendeeCount e \<and>
             maxAttendees (apply_updates e b) = maxAttendees e \<and>
             status (apply_updates e b) = status e"
proof -
  from assms(1) obtain e where f: "findById (events db) i = Some e"
    and c: "creator e = actor_id a" and v: "put_valid now b" "update_validators now b"
    and r: "r = findById (map (\<lambda>x. if event_id x = i then apply_updates x b else x) (events db)) i"
    unfolding updateEvent_def by (auto simp: Let_def split: if_splits option.splits)
  have "\<And>es. findById es i = Some e \<Longrightarrow>
          findById (map (\<lambda>x. if event_id x = i then apply_updates x b else x) es) i =
            Some (apply_updates e b)"
  proof -
    fix es show "findById es i = Some e \<Longrightarrow>
          findById (map (\<lambda>x. if event_id x = i then apply_updates x b else x) es) i =
            Some (apply_updates e b)"
      unfolding findById_def
      by (induction es) (auto simp: apply_updates_def split: if_splits)
  qed
  with f r have "r = Some (apply_updates e b)" by simp
  with f c v assms(2-) show ?thesis by (simp add: apply_updates_def)
qed

text \<open>
  C6. The claim is that a creator's update changes nothing but title, description,
  location, dateTime and category. The create route picks its five fields out of the
  body; the update route hands the whole body to the store. Ada, the creator of the
  example event, sends \<open>status\<close>, \<open>attendees\<close>, \<open>maxAttendees\<close> and \<open>creator\<close>: the update
  succeeds and all four are written.
\<close>

theorem update_writes_any_schema_path:
  "updateEvent 1000 db0 ada 1
     (no_fields\<lparr>b_status := Some (ascii ''cancelled''), b_attendees := Some [13],
                b_maxAttendees := Some 50, b_creator := Some 13\<rparr>) =
     (Inr (Some (ev0\<lparr>creator := 13, attendees := [13], maxAttendees := Some 50,
                     status := ascii ''cancelled''\<rparr>)),
      db0\<lparr>events := [ev0\<lparr>creator := 13, attendees := [13], maxAttendees := Some 50,
                         status := ascii ''cancelled''\<rparr>]\<rparr>)"
  by (simp add: updateEvent_def db0_def ev0_def ada_def findById_def put_valid_def no_fields_def
      update_validators_def apply_updates_def statuses_def ascii_def)

section \<open>Creating\<close>

text \<open>
  C10. A successful create stores a new event with no attendees and an attendee count of
  0; no user's joined events change, and the new id is appended to the created events of
  the creator and of nobody else.
\<close>

theorem create_has_no_attendees:
  assumes "createEvent now db a n b = (Inr r, db')"
  shows "\<exists>ev. r = Some ev \<and> events db' = events db @ [ev] \<and> event_id ev = n \<and>
              creator ev = actor_id a \<and> attendees ev = [] \<and> attendeeCount ev = 0 \<and>
              map joinedEvents (users db') = map joinedEvents (users db) \<and>
              users db' = map (\<lambda>u. if user_id u = actor_id a
                                    then u\<lparr>createdEvents := createdEvents u @ [n]\<rparr> else u)
                              (users db)"
proof -
  from assms obtain t d l dt where
    fresh: "findById (events db) n = None"
    and r: "r = findById (events db @ [pre_save (new_Event n a t d l dt (b_category b))]) n"
    and db': "db' = \<lparr>events = events db @ [pre_save (new_Event n a t d l dt (b_category b))],
                      users = push_created (users db) (actor_id a) n\<rparr>"
    unfolding createEvent_def
    by (auto simp: Let_def split: if_splits option.splits)
  let ?ev = "pre_save (new_Event n a t d l dt (b_category b))"
  have id: "event_id ?ev = n" by (simp add: pre_save_def new_Event_def)
  have "r = Some ?ev" using findById_append_new[OF fresh id] r by simp
  moreover have "attendees ?ev = []" "attendeeCount ?ev = 0" "creator ?ev = actor_id a"
    by (simp_all add: pre_save_def new_Event_def)
  moreover have "map joinedEvents (users db') = map joinedEvents (users db)"
    by (simp add: db' push_created_def comp_def)
  ultimately show ?thesis using id db' by (simp add: push_created_def)
qed

text \<open>Ada creates a second event in the example store.\<close>

lemma ada_creates:
  "\<exists>r db'. createEvent 1000 db0 ada 2
     (no_fields\<lparr>b_title := Some (ascii ''Lemma lunch''), b_description := Some (ascii ''Proofs over lunch''),
                b_location := Some (ascii ''Room 2''), b_dateTime := Some (Instant 3000)\<rparr>) = (Inr r, db')"
  by (simp add: createEvent_def post_valid_def no_fields_def isLength_def validator_length_def trim_def is_space_def ascii_def
      future_date_def Instant_def new_Event_def schema_valid_def title_ok_def description_ok_def
      location_ok_def statuses_def categories_def ada_def db0_def ev0_def findById_def Let_def)

theorem create_has_no_attendees_witness:
  "\<exists>ev db'. createEvent 1000 db0 ada 2
     (no_fields\<lparr>b_title := Some (ascii ''Lemma lunch''), b_description := Some (ascii ''Proofs over lunch''),
                b_location := Some (ascii ''Room 2''), b_dateTime := Some (Instant 3000)\<rparr>) =
       (Inr (Some ev), db') \<and>
     attendees ev = [] \<and> attendeeCount ev = 0 \<and>
     map joinedEvents (users db') = map joinedEvents (users db0)"
proof -
  from ada_creates obtain r db' where c: "createEvent 1000 db0 ada 2
     (no_fields\<lparr>b_title := Some (ascii ''Lemma lunch''), b_description := Some (ascii ''Proofs over lunch''),
                b_location := Some (ascii ''Room 2''), b_dateTime := Some (Instant 3000)\<rparr>) = (Inr r, db')"
    by blast
  from create_has_no_attendees[OF c] c show ?thesis by blast
qed

section \<open>What the two validations count\<close>

text \<open>
  The request validation trims the language's white space and counts a surrogate pair once;
  the schema counts code units. A title of a no-break space and two letters fails the
  request validation, and so does one of two characters outside the basic plane, which the
  schema would accept. A date string that is ISO 8601 and does not parse passes the request
  validation, and the creator's update that carries it fails in the store.
\<close>

lemma validation_examples:
  "\<not> put_valid 1000 (no_fields\<lparr>b_title := Some [0xA0, 97, 98]\<rparr>) \<and>
   \<not> put_valid 1000 (no_fields\<lparr>b_title := Some [0xD83D, 0xDE00, 0xD83D, 0xDE00]\<rparr>) \<and>
   title_ok [0xD83D, 0xDE00, 0xD83D, 0xDE00] \<and>
   put_valid 1000 (no_fields\<lparr>b_dateTime := Some (DateText True None)\<rparr>) \<and>
   updateEvent 1000 db0 ada 1 (no_fields\<lparr>b_dateTime := Some (DateText True None)\<rparr>) =
     (Inl ServerError, db0)"
  by (simp add: put_valid_def no_fields_def isLength_def validator_length_def trim_def
      is_space_def title_ok_def future_date_def updateEvent_def update_validators_def
      findById_def db0_def ev0_def ada_def)

section \<open>Pages of the listing\<close>

lemma sort_desc_sorted: "sorted_wrt (\<lambda>a b. dateTime b \<le> dateTime a) (sort_desc es)"
proof -
  have "sorted (map (\<lambda>e. - dateTime e) (sort_desc es))"
    unfolding sort_desc_def by (rule sorted_sort_key)
  then show ?thesis
    by (simp add: sorted_map sorted_wrt_iff_nth_less)
qed

lemma sort_desc_mset: "mset (sort_desc es) = mset es"
  by (simp add: sort_desc_def)

lemma sort_desc_length: "length (sort_desc es) = length es"
  by (simp add: sort_desc_def)

lemma take_drop_nth:
  "j + k \<le> length xs \<Longrightarrow> take k (drop j xs) = map (\<lambda>i. xs ! i) [j..<j + k]"
  by (auto simp: list_eq_iff_nth_eq)

lemma ceil_div_pos:
  assumes "0 < l"
  shows "ceil_div n (Num l) = Ceil \<lceil>real n / real_of_int l\<rceil>"
proof -
  have "\<lceil>real_of_int (int n) / real_of_int l\<rceil> = - ((- int n) div l)"
    by (rule ceiling_divide_eq_div)
  with assms show ?thesis by (simp add: ceil_div_def)
qed

text \<open>
  C7. For a query that the store accepts and that matches the events \<open>ms\<close>, and page and
  limit given as positive integers \<open>p\<close> and \<open>l\<close>: the matches are put in descending date
  order, the first \<open>(p - 1) * l\<close> are skipped and at most \<open>l\<close> returned; the pagination
  reports the page as given, the number of matches as total and its quotient by \<open>l\<close>,
  rounded up, as pages. With 25 matches, limit 10 and page 2 the listing is the 11th to the
  20th event of that order, with pages 3 and total 25.
\<close>

theorem listEvents_pagination:
  assumes pg: "q_page q = Some (NumStr p)" and lm: "q_limit q = Some (NumStr l)"
    and pos: "0 < p" "0 < l"
    and fe: "find_events rx tz now q (events db) = Inr ms"
  shows "sorted_wrt (\<lambda>a b. dateTime b \<le> dateTime a) (sort_desc ms) \<and>
         mset (sort_desc ms) = mset ms \<and>
         listEvents rx other tz db now q =
           Inr \<lparr>listed = take (nat l) (drop (nat ((p - 1) * l)) (sort_desc ms)),
                paging = \<lparr>current = JRaw (NumStr p),
                          pages = Ceil \<lceil>real (length ms) / real_of_int l\<rceil>,
                          total_count = length ms\<rparr>\<rparr> \<and>
         length (take (nat l) (drop (nat ((p - 1) * l)) (sort_desc ms))) \<le> nat l \<and>
         (length ms = 25 \<and> l = 10 \<and> p = 2 \<longrightarrow>
            listEvents rx other tz db now q =
              Inr \<lparr>listed = map (\<lambda>k. sort_desc ms ! k) [10..<20],
                   paging = \<lparr>current = JRaw (NumStr 2), pages = Ceil 3, total_count = 25\<rparr>\<rparr>)"
proof -
  have sk: "0 \<le> (p - 1) * l" using pos by simp
  have L: "listEvents rx other tz db now q =
           Inr \<lparr>listed = take (nat l) (drop (nat ((p - 1) * l)) (sort_desc ms)),
                paging = \<lparr>current = JRaw (NumStr p),
                          pages = Ceil \<lceil>real (length ms) / real_of_int l\<rceil>,
                          total_count = length ms\<rparr>\<rparr>"
    using pos sk ceil_div_pos[of l "length ms"]
    by (simp add: listEvents_def pg lm fe to_num_def js_mul_def js_sub_def find_page_def)
  have P: "length ms = 25 \<and> l = 10 \<and> p = 2 \<longrightarrow>
            listEvents rx other tz db now q =
              Inr \<lparr>listed = map (\<lambda>k. sort_desc ms ! k) [10..<20],
                   paging = \<lparr>current = JRaw (NumStr 2), pages = Ceil 3, total_count = 25\<rparr>\<rparr>"
  proof (intro impI, elim conjE)
    assume n: "length ms = 25" and l: "l = 10" and p: "p = 2"
    have "take 10 (drop 10 (sort_desc ms)) = map (\<lambda>k. sort_desc ms ! k) [10..<10 + 10]"
      by (rule take_drop_nth) (simp add: sort_desc_length n)
    moreover have "\<lceil>(25::real) / 10\<rceil> = 3" by (simp add: ceiling_eq_iff)
    ultimately show "listEvents rx other tz db now q =
              Inr \<lparr>listed = map (\<lambda>k. sort_desc ms ! k) [10..<20],
                   paging = \<lparr>current = JRaw (NumStr 2), pages = Ceil 3, total_count = 25\<rparr>\<rparr>"
      unfolding L by (simp add: n l p)
  qed
  show ?thesis
    using L P sort_desc_sorted[of ms] sort_desc_mset[of ms] by simp
qed

text \<open>The second page of ten of the twenty-five example events.\<close>

lemma find_events_db25:
  "find_events no_rx utc 1000 (no_query\<lparr>q_page := Some (NumStr 2), q_limit := Some (NumStr 10)\<rparr>)
     (events db25) = Inr (events db25)"
  by (simp add: find_events_def search_test_def date_test_def date_part_def no_query_def)

lemma length_db25: "length (events db25) = 25"
  by (simp add: db25_def)

theorem listEvents_pagination_witness:
  "listEvents no_rx strict_store utc db25 1000
     (no_query\<lparr>q_page := Some (NumStr 2), q_limit := Some (NumStr 10)\<rparr>) =
     Inr \<lparr>listed = map (\<lambda>k. sort_desc (events db25) ! k) [10..<20],
          paging = \<lparr>current = JRaw (NumStr 2), pages = Ceil 3, total_count = 25\<rparr>\<rparr>"
proof -
  let ?q = "no_query\<lparr>q_page := Some (NumStr 2), q_limit := Some (NumStr 10)\<rparr>"
  have pg: "q_page ?q = Some (NumStr 2)" and lm: "q_limit ?q = Some (NumStr 10)"
    by simp_all
  have pos: "(0::int) < 2" "(0::int) < 10" by simp_all
  from listEvents_pagination[OF pg lm pos find_events_db25, of strict_store]
  have "length (events db25) = 25 \<and> (10::int) = 10 \<and> (2::int) = 2 \<longrightarrow>
        listEvents no_rx strict_store utc db25 1000 ?q =
          Inr \<lparr>listed = map (\<lambda>k. sort_desc (events db25) ! k) [10..<20],
               paging = \<lparr>current = JRaw (NumStr 2), pages = Ceil 3, total_count = 25\<rparr>\<rparr>"
    by blast
  with length_db25 show ?thesis by blast
qed

text \<open>
  C9, as the code has it. When page and limit are both absent the listing is the one of
  page 1 and limit 10. A malformed page or limit is not replaced by its default and the
  handler rejects nothing itself: the value is coerced to NaN, the store is asked to skip
  NaN (and to limit to NaN for a malformed limit), and the response is the store's
  failure or the store's listing, with the malformed page echoed as current and NaN as
  pages for a malformed limit.
\<close>

theorem page_limit_defaults:
  assumes fe: "find_events rx tz now q (events db) = Inr ms"
  shows "(q_page q = None \<and> q_limit q = None \<longrightarrow>
            listEvents rx other tz db now q =
              Inr \<lparr>listed = take 10 (sort_desc ms),
                   paging = \<lparr>current = JNum 1,
                             pages = Ceil \<lceil>real (length ms) / 10\<rceil>,
                             total_count = length ms\<rparr>\<rparr>) \<and>
         (q_page q = Some BadStr \<longrightarrow>
            (let limit = (case q_limit q of None \<Rightarrow> JNum 10 | Some r \<Rightarrow> JRaw r)
             in listEvents rx other tz db now q =
                  (case other (sort_desc ms) (to_num limit) NaN of
                     Inl err \<Rightarrow> Inl ServerError
                   | Inr evs \<Rightarrow>
                       Inr \<lparr>listed = evs,
                            paging = \<lparr>current = JRaw BadStr,
                                      pages = ceil_div (length ms) (to_num limit),
                                      total_count = length ms\<rparr>\<rparr>))) \<and>
         (q_limit q = Some BadStr \<longrightarrow>
            (let page = (case q_page q of None \<Rightarrow> JNum 1 | Some r \<Rightarrow> JRaw r)
             in listEvents rx other tz db now q =
                  (case other (sort_desc ms) NaN NaN of
                     Inl err \<Rightarrow> Inl ServerError
                   | Inr evs \<Rightarrow>
                       Inr \<lparr>listed = evs,
                            paging = \<lparr>current = page, pages = CeilNaN,
                                      total_count = length ms\<rparr>\<rparr>)))"
proof (intro conjI impI)
  assume "q_page q = None \<and> q_limit q = None"
  then show "listEvents rx other tz db now q =
              Inr \<lparr>listed = take 10 (sort_desc ms),
                   paging = \<lparr>current = JNum 1,
                             pages = Ceil \<lceil>real (length ms) / 10\<rceil>,
                             total_count = length ms\<rparr>\<rparr>"
    using ceil_div_pos[of 10 "length ms"]
    by (simp add: listEvents_def fe to_num_def js_mul_def js_sub_def find_page_def)
next
  assume b: "q_page q = Some BadStr"
  show "(let limit = (case q_limit q of None \<Rightarrow> JNum 10 | Some r \<Rightarrow> JRaw r)
             in listEvents rx other tz db now q =
                  (case other (sort_desc ms) (to_num limit) NaN of
                     Inl err \<Rightarrow> Inl ServerError
                   | Inr evs \<Rightarrow>
                       Inr \<lparr>listed = evs,
                            paging = \<lparr>current = JRaw BadStr,
                                      pages = ceil_div (length ms) (to_num limit),
                                      total_count = length ms\<rparr>\<rparr>))"
    by (auto simp: listEvents_def fe b to_num_def js_mul_def js_sub_def find_page_def
             split: option.splits qraw.splits sum.splits)
next
  assume b: "q_limit q = Some BadStr"
  show "(let page = (case q_page q of None \<Rightarrow> JNum 1 | Some r \<Rightarrow> JRaw r)
             in listEvents rx other tz db now q =
                  (case other (sort_desc ms) NaN NaN of
                     Inl err \<Rightarrow> Inl ServerError
                   | Inr evs \<Rightarrow>
                       Inr \<lparr>listed = evs,
                            paging = \<lparr>current = page, pages = CeilNaN,
                                      total_count = length ms\<rparr>\<rparr>))"
    by (auto simp: listEvents_def fe b to_num_def js_mul_def js_sub_def find_page_def ceil_div_def
             split: option.splits qraw.splits sum.splits)
qed

text \<open>The example store listed without page and limit, and with a malformed limit on a
  store that refuses NaN.\<close>

lemma find_events_db0: "find_events no_rx utc 1000 (no_query\<lparr>q_limit := l\<rparr>) (events db0) = Inr [ev0]"
  by (simp add: find_events_def search_test_def date_test_def date_part_def no_query_def db0_def)

theorem page_limit_defaults_witness:
  "listEvents no_rx strict_store utc db0 1000 no_query =
     Inr \<lparr>listed = [ev0], paging = \<lparr>current = JNum 1, pages = Ceil 1, total_count = 1\<rparr>\<rparr> \<and>
   listEvents no_rx strict_store utc db0 1000 (no_query\<lparr>q_limit := Some BadStr\<rparr>) = Inl ServerError"
proof -
  have n: "no_query\<lparr>q_limit := None\<rparr> = no_query" by (simp add: no_query_def)
  have c: "\<lceil>(1::real) / 10\<rceil> = 1" by (simp add: ceiling_eq_iff)
  from page_limit_defaults[OF find_events_db0, of None strict_store] n c
  have 1: "listEvents no_rx strict_store utc db0 1000 no_query =
     Inr \<lparr>listed = [ev0], paging = \<lparr>current = JNum 1, pages = Ceil 1, total_count = 1\<rparr>\<rparr>"
    by (simp add: no_query_def sort_desc_def)
  from page_limit_defaults[OF find_events_db0, of "Some BadStr" strict_store]
  have 2: "listEvents no_rx strict_store utc db0 1000 (no_query\<lparr>q_limit := Some BadStr\<rparr>) = Inl ServerError"
    by (simp add: no_query_def strict_store_def)
  from 1 2 show ?thesis by simp
qed

text \<open>
  The claim itself does not hold of the code. With the limit malformed, a store that
  refuses NaN fails the request, and a store that reads NaN as 0 returns all twenty-five
  matches with NaN as pages, where the defaults give ten matches and three pages.
\<close>

theorem malformed_limit_is_not_defaulted:
  "listEvents no_rx strict_store utc db25 1000 (no_query\<lparr>q_limit := Some BadStr\<rparr>) =
     Inl ServerError \<and>
   listEvents no_rx lenient_store utc db25 1000 (no_query\<lparr>q_limit := Some BadStr\<rparr>) =
     Inr \<lparr>listed = sort_desc (events db25),
          paging = \<lparr>current = JNum 1, pages = CeilNaN, total_count = 25\<rparr>\<rparr> \<and>
   length (sort_desc (events db25)) = 25 \<and>
   listEvents no_rx lenient_store utc db25 1000 no_query =
     Inr \<lparr>listed = take 10 (sort_desc (events db25)),
          paging = \<lparr>current = JNum 1, pages = Ceil 3, total_count = 25\<rparr>\<rparr>"
proof -
  have f: "\<And>q. q_search q = None \<Longrightarrow> q_dateFilter q = None \<Longrightarrow> q_startDate q = None \<Longrightarrow>
             find_events no_rx utc 1000 q (events db25) = Inr (events db25)"
    by (simp add: find_events_def search_test_def date_test_def date_part_def)
  have n: "length (events db25) = 25" by (simp add: db25_def)
  have 1: "listEvents no_rx strict_store utc db25 1000 (no_query\<lparr>q_limit := Some BadStr\<rparr>) =
     Inl ServerError"
    by (simp add: listEvents_def f no_query_def to_num_def js_mul_def js_sub_def find_page_def
        strict_store_def)
  have 2: "listEvents no_rx lenient_store utc db25 1000 (no_query\<lparr>q_limit := Some BadStr\<rparr>) =
     Inr \<lparr>listed = sort_desc (events db25),
          paging = \<lparr>current = JNum 1, pages = CeilNaN, total_count = 25\<rparr>\<rparr>"
    by (simp add: listEvents_def f no_query_def to_num_def js_mul_def js_sub_def find_page_def
        lenient_store_def ceil_div_def n)
  have 3: "listEvents no_rx lenient_store utc db25 1000 no_query =
     Inr \<lparr>listed = take 10 (sort_desc (events db25)),
          paging = \<lparr>current = JNum 1, pages = Ceil 3, total_count = 25\<rparr>\<rparr>"
    by (simp add: listEvents_def f no_query_def to_num_def js_mul_def js_sub_def find_page_def
        ceil_div_def n)
  from 1 2 3 n show ?thesis by (simp add: sort_desc_length)
qed

section \<open>The calendar\<close>

text \<open>
  The year computed for a day is the one that holds it, a day within its year lies within
  the year's length, and the day of the month lies between 1 and 31.
\<close>

lemma div_bounds:
  fixes k x :: int
  assumes "0 < k"
  shows "k * (x div k) \<le> x \<and> x < k * (x div k) + k"
proof -
  have "x = k * (x div k) + x mod k" by simp
  moreover have "0 \<le> x mod k" "x mod k < k" using assms by simp_all
  ultimately show ?thesis by linarith
qed

lemma DayFromYear_bounds:
  "146097 * (y - 1970) - 506 \<le> 400 * DayFromYear y \<and>
   400 * DayFromYear y \<le> 146097 * (y - 1970) + 589"
proof -
  define a where "a = (y - 1969) div 4"
  define b where "b = (y - 1901) div 100"
  define c where "c = (y - 1601) div 400"
  have "4 * a \<le> y - 1969 \<and> y - 1969 < 4 * a + 4"
    "100 * b \<le> y - 1901 \<and> y - 1901 < 100 * b + 100"
    "400 * c \<le> y - 1601 \<and> y - 1601 < 400 * c + 400"
    unfolding a_def b_def c_def by (rule div_bounds, simp)+
  moreover have "DayFromYear y = 365 * (y - 1970) + a - b + c"
    by (simp add: DayFromYear_def a_def b_def c_def)
  ultimately show ?thesis by auto
qed

lemma YearFromDay_bracket:
  "DayFromYear (YearFromDay d) \<le> d \<and> d < DayFromYear (YearFromDay d + 1)"
proof -
  define y where "y = 1970 + (d * 400) div 146097"
  define q where "q = (d * 400) div 146097"
  have "146097 * q \<le> d * 400 \<and> d * 400 < 146097 * q + 146097"
    unfolding q_def by (rule div_bounds) simp
  moreover have yq: "y = 1970 + q" by (simp add: y_def q_def)
  ultimately have e: "146097 * (y - 1970) \<le> 400 * d \<and> 400 * d < 146097 * (y - 1970) + 146097"
    by simp
  have r: "YearFromDay d = (if d < DayFromYear y then y - 1
               else if DayFromYear (y + 1) \<le> d then y + 1 else y)"
    by (simp add: YearFromDay_def y_def Let_def)
  define lo where "lo = DayFromYear (y - 1)"
  define hi where "hi = DayFromYear (y + 2)"
  have "146097 * (y - 1 - 1970) - 506 \<le> 400 * lo \<and> 400 * lo \<le> 146097 * (y - 1 - 1970) + 589"
    unfolding lo_def by (rule DayFromYear_bounds)
  with e have lo: "lo \<le> d" by auto
  have "146097 * (y + 2 - 1970) - 506 \<le> 400 * hi \<and> 400 * hi \<le> 146097 * (y + 2 - 1970) + 589"
    unfolding hi_def by (rule DayFromYear_bounds)
  with e have hi: "d < hi" by auto
  show ?thesis
    using lo hi unfolding r lo_def hi_def by (auto simp: add.commute algebra_simps)
qed

lemma div_succ:
  fixes k x :: int
  assumes "0 < k"
  shows "(x + 1) div k = x div k + (if (x + 1) mod k = 0 then 1 else 0)"
proof -
  define q where "q = x div k"
  define r where "r = x mod k"
  have x: "x = k * q + r" and r: "0 \<le> r" "r < k"
    using assms by (simp_all add: q_def r_def)
  show ?thesis
  proof (cases "r + 1 = k")
    case True
    then have "x + 1 = k * (q + 1) + 0" using x by (simp add: algebra_simps)
    then have "(x + 1) div k = q + 1" "(x + 1) mod k = 0"
      using assms by (simp_all only: int_div_pos_eq int_mod_pos_eq order_refl)
    then show ?thesis by (simp add: q_def)
  next
    case False
    then have "x + 1 = k * q + (r + 1)" "0 \<le> r + 1" "r + 1 < k" using x r by simp_all
    then have "(x + 1) div k = q" "(x + 1) mod k = r + 1"
      by (simp_all only: int_div_pos_eq int_mod_pos_eq)
    then show ?thesis using r by (simp add: q_def)
  qed
qed

lemma mod_shift:
  fixes y k n :: int
  shows "(y - n * k) mod k = y mod k"
proof -
  have "(y - n * k) mod k = (y + (- n) * k) mod k" by simp
  then show ?thesis by (simp only: mod_mult_self1)
qed


lemma mod_of_multiple:
  fixes y :: int
  assumes "k dvd c" and "y mod c = 0"
  shows "y mod k = 0"
proof -
  have "y mod k = (y mod c) mod k" using assms(1) by (simp add: mod_mod_cancel)
  with assms(2) show ?thesis by simp
qed

lemma DayFromYear_succ:
  "DayFromYear (y + 1) = DayFromYear y + (if leap_year y then 366 else 365)"
proof -
  have "y + 1 - 1969 = (y - 1969) + 1" "y - 1969 + 1 = y - 492 * 4" by simp_all
  then have a: "(y + 1 - 1969) div 4 = (y - 1969) div 4 + (if y mod 4 = 0 then 1 else 0)"
    using div_succ[of 4 "y - 1969"] mod_shift[of y 492 4] by (simp only:)
  have "y + 1 - 1901 = (y - 1901) + 1" "y - 1901 + 1 = y - 19 * 100" by simp_all
  then have b: "(y + 1 - 1901) div 100 = (y - 1901) div 100 + (if y mod 100 = 0 then 1 else 0)"
    using div_succ[of 100 "y - 1901"] mod_shift[of y 19 100] by (simp only:)
  have "y + 1 - 1601 = (y - 1601) + 1" "y - 1601 + 1 = y - 4 * 400" by simp_all
  then have c: "(y + 1 - 1601) div 400 = (y - 1601) div 400 + (if y mod 400 = 0 then 1 else 0)"
    using div_succ[of 400 "y - 1601"] mod_shift[of y 4 400] by (simp only:)
  have d: "y mod 400 = 0 \<Longrightarrow> y mod 100 = 0" "y mod 100 = 0 \<Longrightarrow> y mod 4 = 0"
    by (rule mod_of_multiple[of 100 400], simp, assumption)
       (rule mod_of_multiple[of 4 100], simp, assumption)
  have "DayFromYear (y + 1) =
          365 * (y + 1 - 1970) + (y + 1 - 1969) div 4 - (y + 1 - 1901) div 100 + (y + 1 - 1601) div 400"
    by (simp only: DayFromYear_def)
  also have "\<dots> = DayFromYear y + 365 + (if y mod 4 = 0 then 1 else 0)
                 - (if y mod 100 = 0 then 1 else 0) + (if y mod 400 = 0 then 1 else 0)"
    unfolding a b c DayFromYear_def by (simp only: algebra_simps)
  also have "\<dots> = DayFromYear y + (if leap_year y then 366 else 365)"
    using d by (cases "y mod 4 = 0"; cases "y mod 100 = 0"; cases "y mod 400 = 0")
               (simp_all add: leap_year_def)
  finally show ?thesis .
qed


lemma DayWithinYear_range:
  "0 \<le> DayWithinYear t \<and>
   DayWithinYear t < (if leap_year (YearFromTime t) then 366 else 365)"
proof -
  define y where "y = YearFromTime t"
  have "DayFromYear y \<le> Day t \<and> Day t < DayFromYear (y + 1)"
    unfolding y_def YearFromTime_def by (rule YearFromDay_bracket)
  moreover have "DayFromYear (y + 1) = DayFromYear y + (if leap_year y then 366 else 365)"
    by (rule DayFromYear_succ)
  ultimately have "0 \<le> Day t - DayFromYear y \<and>
                   Day t - DayFromYear y < (if leap_year y then 366 else 365)"
    by (simp split: if_splits)
  then show ?thesis by (simp only: DayWithinYear_def y_def)
qed

lemma DateFromTime_range: "1 \<le> DateFromTime t \<and> DateFromTime t \<le> 31"
  using DayWithinYear_range[of t]
  by (simp add: DateFromTime_def MonthFromTime_def month_start_def Let_def split: if_splits)

text \<open>The fields of noon of 2024-03-14 (a Thursday) and the other buckets at that time, on
  a server in UTC.\<close>

lemma noon_fields:
  "getFullYear utc noon_2024_03_14 = 2024 \<and> getMonth utc noon_2024_03_14 = 2 \<and>
   getDate utc noon_2024_03_14 = 14 \<and> getDay utc noon_2024_03_14 = 4"
  by (simp add: getFullYear_def getMonth_def getDate_def getDay_def LocalTime_def utc_def fixed_zone_def
      YearFromTime_def YearFromDay_def DayFromYear_def MonthFromTime_def DateFromTime_def
      DayWithinYear_def WeekDay_def Day_def msPerDay_def noon_2024_03_14_def leap_year_def
      month_start_def Let_def)

lemma other_buckets:
  "bucket utc noon_2024_03_14 (ascii ''today'') = Some (1710374400000, 1710460800000) \<and>
   bucket utc noon_2024_03_14 (ascii ''last_week'') = Some (1709424000000, 1710028800000) \<and>
   bucket utc noon_2024_03_14 (ascii ''current_month'') = Some (1709251200000, 1711929600000) \<and>
   bucket utc noon_2024_03_14 (ascii ''last_month'') = Some (1706745600000, 1709251200000) \<and>
   bucket utc noon_2024_03_14 (ascii ''next_week'') = None"
  by code_simp


section \<open>The week of the date filter\<close>

lemma MonthFromTime_range: "0 \<le> MonthFromTime t \<and> MonthFromTime t \<le> 11"
  by (simp add: MonthFromTime_def Let_def)

text \<open>The date algorithms invert each other: the day number of a time's own year, month
  and day of the month, moved by \<open>k\<close> days.\<close>

lemma MakeDay_fields:
  "MakeDay (YearFromTime t) (MonthFromTime t) (DateFromTime t + k) = Day t + k"
proof -
  have "MonthFromTime t div 12 = 0" "MonthFromTime t mod 12 = MonthFromTime t"
    using MonthFromTime_range[of t] by auto
  then show ?thesis
    by (simp add: MakeDay_def DateFromTime_def DayWithinYear_def Let_def)
qed

lemma Day_TimeWithinDay: "Day t * msPerDay + TimeWithinDay t = t"
  by (simp add: Day_def TimeWithinDay_def)

lemma Day_midnight: "Day (d * msPerDay) = d"
  by (simp add: Day_def msPerDay_def)

lemma TimeWithinDay_midnight: "TimeWithinDay (d * msPerDay) = 0"
  by (simp add: TimeWithinDay_def)

lemma setDate_shift:
  "setDate tz t (getDate tz t + k) = UTC tz (LocalTime tz t + k * msPerDay)"
proof -
  have "MakeDate (Day (LocalTime tz t) + k) (TimeWithinDay (LocalTime tz t)) =
        LocalTime tz t + k * msPerDay"
    using Day_TimeWithinDay[of "LocalTime tz t"] by (simp add: MakeDate_def algebra_simps)
  then show ?thesis
    by (simp add: setDate_def getDate_def Let_def MakeDay_fields)
qed

lemma YearFromDay_lower:
  assumes "0 \<le> d"
  shows "1969 \<le> YearFromDay d"
proof -
  from assms have "0 \<le> (d * 400) div 146097" by simp
  then show ?thesis by (auto simp: YearFromDay_def Let_def)
qed

lemma today_of_midnight:
  assumes "0 \<le> LocalTime tz now"
  shows "today_of tz now = UTC tz (Day (LocalTime tz now) * msPerDay)"
proof -
  define lt where "lt = LocalTime tz now"
  have "0 \<le> Day lt" using assms by (simp add: Day_def msPerDay_def lt_def)
  then have "1969 \<le> YearFromTime lt" by (simp add: YearFromTime_def YearFromDay_lower)
  then have "\<not> YearFromTime lt \<le> 99" by simp
  moreover have "MakeDay (YearFromTime lt) (MonthFromTime lt) (DateFromTime lt) = Day lt"
    using MakeDay_fields[of lt 0] by simp
  ultimately have "new_Date tz (YearFromTime lt) (MonthFromTime lt) (DateFromTime lt) =
                   UTC tz (Day lt * msPerDay)"
    by (simp add: new_Date_def MakeDate_def Let_def)
  then show ?thesis
    by (simp add: today_of_def getFullYear_def getMonth_def getDate_def lt_def)
qed

lemma WeekDay_range: "0 \<le> WeekDay t \<and> WeekDay t < 7"
  by (simp add: WeekDay_def)

lemma WeekDay_midnight: "WeekDay (Day t * msPerDay) = WeekDay t"
  by (simp add: WeekDay_def Day_midnight)

lemma week_start_is_sunday: "WeekDay ((Day t - WeekDay t) * msPerDay) = 0"
  unfolding WeekDay_def Day_midnight by presburger

text \<open>The window of the current week, on a zone whose clock shows the midnights that start
  the current local day and the Sunday on or before it.\<close>

lemma current_week_bucket:
  assumes t0: "0 \<le> LocalTime tz now"
    and md: "midnight_shown tz (Day (LocalTime tz now))"
    and ms: "midnight_shown tz (Day (LocalTime tz now) - WeekDay (LocalTime tz now))"
  shows "bucket tz now (ascii ''current_week'') =
           Some (UTC tz ((Day (LocalTime tz now) - WeekDay (LocalTime tz now)) * msPerDay),
                 UTC tz ((Day (LocalTime tz now) - WeekDay (LocalTime tz now) + 7) * msPerDay))"
proof -
  define d where "d = Day (LocalTime tz now)"
  define w where "w = WeekDay (LocalTime tz now)"
  define today where "today = UTC tz (d * msPerDay)"
  define start where "start = UTC tz ((d - w) * msPerDay)"
  have t: "today_of tz now = today"
    unfolding today_def d_def by (rule today_of_midnight[OF t0])
  have lt: "LocalTime tz today = d * msPerDay"
    using md by (simp add: midnight_shown_def today_def d_def)
  have ls: "LocalTime tz start = (d - w) * msPerDay"
    using ms by (simp add: midnight_shown_def start_def d_def w_def)
  have gd: "getDay tz today = w"
    by (simp add: getDay_def lt d_def w_def WeekDay_midnight)
  have "setDate tz today (getDate tz today + (- w)) = UTC tz (LocalTime tz today + (- w) * msPerDay)"
    by (rule setDate_shift)
  then have s: "setDate tz today (getDate tz today - getDay tz today) = start"
    by (simp add: gd lt start_def algebra_simps)
  have "setDate tz start (getDate tz start + 7) = UTC tz (LocalTime tz start + 7 * msPerDay)"
    by (rule setDate_shift)
  then have e: "setDate tz start (getDate tz start + 7) = UTC tz ((d - w + 7) * msPerDay)"
    by (simp add: ls algebra_simps)
  have n: "ascii ''current_week'' \<noteq> ascii ''today''"
    by (simp add: ascii_def)
  show ?thesis
    unfolding bucket_def t Let_def s e
    by (simp add: n start_def d_def w_def)
qed

text \<open>
  C8, as the code has it. The handler takes the day and the weekday from the server's local
  time. For a request at local time not before 1970, with the \<open>current_week\<close> filter and no
  custom range, on a zone whose clock shows the midnight that starts the current local day
  and the one that starts the Sunday on or before it: \<open>today\<close> is the instant of the first
  of these midnights, the window starts at the instant of the second and ends at the instant
  of the local midnight seven calendar days later, and the matches are the events whose date
  is at or after the start and before the end (and that pass the search). The start of the
  current local day lies in the window when the zone's offsets at the midnights concerned
  differ by less than a day, and the window is seven times 24 hours long when the zone's
  offset is the same at both ends. On a server whose local time is UTC, at any time of
  2024-03-14, the window is from 2024-03-10T00:00Z to 2024-03-17T00:00Z.
\<close>

theorem current_week_local:
  assumes t0: "0 \<le> LocalTime tz now"
    and df: "q_dateFilter q = Some (ascii ''current_week'')"
    and nr: "q_startDate q = None \<or> q_endDate q = None"
    and st: "search_test rx (q_search q) = Some st"
    and md: "midnight_shown tz (Day (LocalTime tz now))"
    and ms: "midnight_shown tz (Day (LocalTime tz now) - WeekDay (LocalTime tz now))"
  shows "(let day = Day (LocalTime tz now);
              sunday = day - WeekDay (LocalTime tz now);
              today = UTC tz (day * msPerDay);
              startOfWeek = UTC tz (sunday * msPerDay);
              endOfWeek = UTC tz ((sunday + 7) * msPerDay)
          in date_part tz now q = HalfOpen startOfWeek endOfWeek \<and>
             find_events rx tz now q es =
               Inr (filter (\<lambda>e. st e \<and> startOfWeek \<le> dateTime e \<and> dateTime e < endOfWeek) es) \<and>
             today_of tz now = today \<and>
             LocalTime tz today = day * msPerDay \<and>
             LocalTime tz startOfWeek = sunday * msPerDay \<and>
             getDay tz startOfWeek = 0 \<and>
             sunday \<le> day \<and> day < sunday + 7 \<and>
             (\<bar>local_offset tz (day * msPerDay) - local_offset tz (sunday * msPerDay)\<bar> < msPerDay
                \<longrightarrow> startOfWeek \<le> today) \<and>
             (\<bar>local_offset tz ((sunday + 7) * msPerDay) - local_offset tz (day * msPerDay)\<bar>
                < msPerDay \<longrightarrow> today < endOfWeek) \<and>
             (local_offset tz ((sunday + 7) * msPerDay) = local_offset tz (sunday * msPerDay)
                \<longrightarrow> endOfWeek = startOfWeek + 7 * msPerDay) \<and>
             (tz = utc \<and> 1710374400000 \<le> now \<and> now < 1710460800000 \<longrightarrow>
                startOfWeek = 1710028800000 \<and> endOfWeek = 1710633600000))"
proof -
  define day where "day = Day (LocalTime tz now)"
  define sunday where "sunday = day - WeekDay (LocalTime tz now)"
  define today where "today = UTC tz (day * msPerDay)"
  define startOfWeek where "startOfWeek = UTC tz (sunday * msPerDay)"
  define endOfWeek where "endOfWeek = UTC tz ((sunday + 7) * msPerDay)"
  define a where "a = local_offset tz (day * msPerDay)"
  define b where "b = local_offset tz (sunday * msPerDay)"
  define c where "c = local_offset tz ((sunday + 7) * msPerDay)"
  define w where "w = WeekDay (LocalTime tz now)"
  have w_range: "0 \<le> w" "w < 7" using WeekDay_range[of "LocalTime tz now"] by (simp_all add: w_def)
  have sw: "sunday = day - w" by (simp add: sunday_def w_def)
  have bk: "bucket tz now (ascii ''current_week'') = Some (startOfWeek, endOfWeek)"
    using current_week_bucket[OF t0 md ms]
    by (simp add: startOfWeek_def endOfWeek_def sunday_def day_def)
  have ne: "ascii ''current_week'' \<noteq> []" by (simp add: ascii_def)
  have dp: "date_part tz now q = HalfOpen startOfWeek endOfWeek"
    using nr by (auto simp: date_part_def df bk ne Let_def split: option.splits)
  have fe: "find_events rx tz now q es =
             Inr (filter (\<lambda>e. st e \<and> startOfWeek \<le> dateTime e \<and> dateTime e < endOfWeek) es)"
    by (simp add: find_events_def st dp date_test_def)
  have td: "today_of tz now = today"
    unfolding today_def day_def by (rule today_of_midnight[OF t0])
  have local_today: "LocalTime tz today = day * msPerDay"
    using md by (simp add: midnight_shown_def today_def day_def)
  have local_start: "LocalTime tz startOfWeek = sunday * msPerDay"
    using ms by (simp add: midnight_shown_def startOfWeek_def sunday_def day_def)
  have is_sunday: "getDay tz startOfWeek = 0"
    unfolding getDay_def local_start sunday_def day_def by (rule week_start_is_sunday)
  have days: "sunday \<le> day" "day < sunday + 7" using w_range by (simp_all add: sw)
  have today_eq: "today = day * 86400000 - a"
    by (simp add: today_def UTC_def a_def msPerDay_def)
  have start_eq: "startOfWeek = sunday * 86400000 - b"
    by (simp add: startOfWeek_def UTC_def b_def msPerDay_def)
  have end_eq: "endOfWeek = (sunday + 7) * 86400000 - c"
    by (simp add: endOfWeek_def UTC_def c_def msPerDay_def)
  have after_start: "\<bar>a - b\<bar> < msPerDay \<longrightarrow> startOfWeek \<le> today"
  proof
    assume close: "\<bar>a - b\<bar> < msPerDay"
    show "startOfWeek \<le> today"
    proof (cases "w = 0")
      case True
      then have "sunday = day" by (simp add: sw)
      then show ?thesis by (simp add: today_def startOfWeek_def)
    next
      case False
      then have "sunday + 1 \<le> day" using w_range by (simp add: sw)
      with close show ?thesis by (simp add: today_eq start_eq msPerDay_def)
    qed
  qed
  have before_end: "\<bar>c - a\<bar> < msPerDay \<longrightarrow> today < endOfWeek"
    using days by (auto simp: today_eq end_eq msPerDay_def)
  have week_long: "c = b \<longrightarrow> endOfWeek = startOfWeek + 7 * msPerDay"
    by (simp add: start_eq end_eq msPerDay_def)
  have at_utc: "tz = utc \<and> 1710374400000 \<le> now \<and> now < 1710460800000 \<longrightarrow>
                  startOfWeek = 1710028800000 \<and> endOfWeek = 1710633600000"
  proof (intro impI, elim conjE)
    assume z: "tz = utc" and lo: "1710374400000 \<le> now" and hi: "now < 1710460800000"
    have "LocalTime tz now = now" by (simp add: z utc_def fixed_zone_def LocalTime_def)
    then have "day = 19796" using lo hi by (simp add: day_def Day_def msPerDay_def)
    moreover from this have "sunday = 19792"
      using \<open>LocalTime tz now = now\<close> by (simp add: sunday_def WeekDay_def day_def)
    ultimately show "startOfWeek = 1710028800000 \<and> endOfWeek = 1710633600000"
      by (simp add: startOfWeek_def endOfWeek_def UTC_def z utc_def fixed_zone_def msPerDay_def)
  qed
  have "date_part tz now q = HalfOpen startOfWeek endOfWeek \<and>
        find_events rx tz now q es =
          Inr (filter (\<lambda>e. st e \<and> startOfWeek \<le> dateTime e \<and> dateTime e < endOfWeek) es) \<and>
        today_of tz now = today \<and>
        LocalTime tz today = day * msPerDay \<and>
        LocalTime tz startOfWeek = sunday * msPerDay \<and>
        getDay tz startOfWeek = 0 \<and>
        sunday \<le> day \<and> day < sunday + 7 \<and>
        (\<bar>a - b\<bar> < msPerDay \<longrightarrow> startOfWeek \<le> today) \<and>
        (\<bar>c - a\<bar> < msPerDay \<longrightarrow> today < endOfWeek) \<and>
        (c = b \<longrightarrow> endOfWeek = startOfWeek + 7 * msPerDay) \<and>
        (tz = utc \<and> 1710374400000 \<le> now \<and> now < 1710460800000 \<longrightarrow>
           startOfWeek = 1710028800000 \<and> endOfWeek = 1710633600000)"
    using dp fe td local_today local_start is_sunday days after_start before_end week_long at_utc
    by blast
  then show ?thesis
    unfolding Let_def a_def b_def c_def endOfWeek_def startOfWeek_def today_def sunday_def
      day_def .
qed

text \<open>Noon of 2024-03-14 (UTC) on a server in UTC, and on a server in New York, where the
  clocks went forward on the Sunday that starts the week: there the window runs from
  2024-03-10T05:00Z to 2024-03-17T04:00Z.\<close>

theorem current_week_local_witness:
  "0 \<le> LocalTime utc noon_2024_03_14 \<and>
   midnight_shown utc (Day (LocalTime utc noon_2024_03_14)) \<and>
   midnight_shown utc (Day (LocalTime utc noon_2024_03_14) - WeekDay (LocalTime utc noon_2024_03_14)) \<and>
   date_part utc noon_2024_03_14 (no_query\<lparr>q_dateFilter := Some (ascii ''current_week'')\<rparr>) =
     HalfOpen 1710028800000 1710633600000 \<and>
   0 \<le> LocalTime new_york noon_2024_03_14 \<and>
   midnight_shown new_york (Day (LocalTime new_york noon_2024_03_14)) \<and>
   midnight_shown new_york
     (Day (LocalTime new_york noon_2024_03_14) - WeekDay (LocalTime new_york noon_2024_03_14)) \<and>
   date_part new_york noon_2024_03_14 (no_query\<lparr>q_dateFilter := Some (ascii ''current_week'')\<rparr>) =
     HalfOpen 1710046800000 1710648000000 \<and>
   today_of new_york noon_2024_03_14 = 1710388800000 \<and>
   getDay new_york 1710046800000 = 0"
proof -
  let ?q = "no_query\<lparr>q_dateFilter := Some (ascii ''current_week'')\<rparr>"
  have df: "q_dateFilter ?q = Some (ascii ''current_week'')" by simp
  have nr: "q_startDate ?q = None \<or> q_endDate ?q = None" by (simp add: no_query_def)
  have st: "search_test no_rx (q_search ?q) = Some (\<lambda>e. True)"
    by (simp add: search_test_def no_query_def)
  have u: "LocalTime utc noon_2024_03_14 = 1710417600000"
    by (simp add: LocalTime_def utc_def fixed_zone_def noon_2024_03_14_def)
  have ud: "Day 1710417600000 = 19796" "WeekDay 1710417600000 = 4"
    by (simp_all add: Day_def WeekDay_def msPerDay_def)
  have u0: "0 \<le> LocalTime utc noon_2024_03_14" by (simp add: u)
  have um: "midnight_shown utc (Day (LocalTime utc noon_2024_03_14))"
    "midnight_shown utc (Day (LocalTime utc noon_2024_03_14) - WeekDay (LocalTime utc noon_2024_03_14))"
    by (simp_all add: midnight_shown_def LocalTime_def UTC_def utc_def fixed_zone_def)
  have uday: "utc = utc \<and> 1710374400000 \<le> noon_2024_03_14 \<and> noon_2024_03_14 < 1710460800000"
    by (simp add: noon_2024_03_14_def)
  from current_week_local[OF u0 df nr st um, of "[]"] uday
  have 1: "date_part utc noon_2024_03_14 ?q = HalfOpen 1710028800000 1710633600000"
    by (simp add: Let_def)
  have n: "LocalTime new_york noon_2024_03_14 = 1710403200000"
    by (simp add: LocalTime_def new_york_def noon_2024_03_14_def)
  have nd: "Day 1710403200000 = 19796" "WeekDay 1710403200000 = 4"
    by (simp_all add: Day_def WeekDay_def msPerDay_def)
  have n0: "0 \<le> LocalTime new_york noon_2024_03_14" by (simp add: n)
  have nm: "midnight_shown new_york (Day (LocalTime new_york noon_2024_03_14))"
    "midnight_shown new_york
       (Day (LocalTime new_york noon_2024_03_14) - WeekDay (LocalTime new_york noon_2024_03_14))"
    unfolding n nd
    by (simp_all add: midnight_shown_def LocalTime_def UTC_def new_york_def msPerDay_def)
  have nu: "UTC new_york (19792 * msPerDay) = 1710046800000"
    "UTC new_york (19796 * msPerDay) = 1710388800000"
    "UTC new_york (19799 * msPerDay) = 1710648000000"
    by (simp_all add: UTC_def new_york_def msPerDay_def)
  from current_week_local[OF n0 df nr st nm, of "[]"]
  have 2: "date_part new_york noon_2024_03_14 ?q = HalfOpen 1710046800000 1710648000000 \<and>
           today_of new_york noon_2024_03_14 = 1710388800000 \<and>
           getDay new_york 1710046800000 = 0"
    unfolding n nd Let_def by (simp add: nu)
  from u0 um 1 n0 nm 2 show ?thesis by blast
qed

text \<open>
  The claim itself does not hold of the code. At the same instant, noon of 2024-03-14 UTC,
  on a server six hours east of UTC, the window runs from 2024-03-09T18:00Z to
  2024-03-16T18:00Z: an event at 2024-03-09T20:00Z is matched, one at 2024-03-16T20:00Z
  is not.
\<close>

theorem current_week_not_utc:
  "date_part utc_plus_6 noon_2024_03_14 (no_query\<lparr>q_dateFilter := Some (ascii ''current_week'')\<rparr>) =
     HalfOpen 1710007200000 1710612000000 \<and>
   1710014400000 < (1710028800000::int) \<and>
   find_events no_rx utc_plus_6 noon_2024_03_14
     (no_query\<lparr>q_dateFilter := Some (ascii ''current_week'')\<rparr>)
     [ev0\<lparr>dateTime := 1710014400000\<rparr>, ev0\<lparr>dateTime := 1710619200000\<rparr>] =
     Inr [ev0\<lparr>dateTime := 1710014400000\<rparr>]"
proof -
  have l: "LocalTime utc_plus_6 noon_2024_03_14 = 1710439200000"
    by (simp add: LocalTime_def utc_plus_6_def fixed_zone_def noon_2024_03_14_def)
  have d: "Day 1710439200000 = 19796" "WeekDay 1710439200000 = 4"
    by (simp_all add: Day_def WeekDay_def msPerDay_def)
  have t0: "0 \<le> LocalTime utc_plus_6 noon_2024_03_14" by (simp add: l)
  have m: "midnight_shown utc_plus_6 (Day (LocalTime utc_plus_6 noon_2024_03_14))"
    "midnight_shown utc_plus_6
       (Day (LocalTime utc_plus_6 noon_2024_03_14) - WeekDay (LocalTime utc_plus_6 noon_2024_03_14))"
    by (simp_all add: midnight_shown_def LocalTime_def UTC_def utc_plus_6_def fixed_zone_def)
  have b: "bucket utc_plus_6 noon_2024_03_14 (ascii ''current_week'') =
             Some (1710007200000, 1710612000000)"
    unfolding current_week_bucket[OF t0 m] l d
    by (simp add: UTC_def utc_plus_6_def fixed_zone_def msPerDay_def)
  have dp: "date_part utc_plus_6 noon_2024_03_14
              (no_query\<lparr>q_dateFilter := Some (ascii ''current_week'')\<rparr>) =
     HalfOpen 1710007200000 1710612000000"
  proof -
    have "ascii ''current_week'' \<noteq> []" by (simp add: ascii_def)
    then show ?thesis by (simp add: date_part_def b no_query_def)
  qed
  then show ?thesis
    by (simp add: find_events_def search_test_def date_test_def no_query_def ev0_def)
qed

end
